theory Spec2Isabelle
  imports Main
begin

section \<open>JavaScript values\<close>

text \<open>
  The component in \<^verbatim>\<open>src/frontend/src/components/Header.tsx\<close> reads fields of
  parsed JSON bodies (type \<^verbatim>\<open>any\<close>) and tests them with JavaScript truthiness and
  with \<^verbatim>\<open>===\<close>.  Values are modelled as far as those two tests can tell them
  apart.  A number is kept as an integer: the code only ever asks whether it is zero.
\<close>

datatype jsval =
    JUndefined
  | JNull
  | JBool bool
  | JNum int
  | JStr string
  | JArr "jsval list"
  | JObj "(string \<times> jsval) list"

text \<open>Truthiness, as used by \<^verbatim>\<open>if (v)\<close>, \<^verbatim>\<open>!v\<close> and \<^verbatim>\<open>v || w\<close>.\<close>

fun truthy :: "jsval \<Rightarrow> bool" where
  "truthy JUndefined = False"
| "truthy JNull = False"
| "truthy (JBool b) = b"
| "truthy (JNum n) = (n \<noteq> 0)"
| "truthy (JStr s) = (s \<noteq> [])"
| "truthy (JArr xs) = True"
| "truthy (JObj kvs) = True"

datatype exn = TypeError | SyntaxError | NetworkError

text \<open>
  Property read \<^verbatim>\<open>data.k\<close>.  On \<^verbatim>\<open>null\<close> and \<^verbatim>\<open>undefined\<close> it throws a
  TypeError; on an object it yields the field, \<^verbatim>\<open>undefined\<close> when there is none
  (JSON.parse keeps the last of two equal keys); on any other value the names the
  component reads are not defined, so the result is \<^verbatim>\<open>undefined\<close>.
\<close>

fun field :: "jsval \<Rightarrow> string \<Rightarrow> exn + jsval" where
  "field JUndefined k = Inl TypeError"
| "field JNull k = Inl TypeError"
| "field (JObj kvs) k = Inr (case map_of (rev kvs) k of None \<Rightarrow> JUndefined | Some v \<Rightarrow> v)"
| "field (JBool b) k = Inr JUndefined"
| "field (JNum n) k = Inr JUndefined"
| "field (JStr s) k = Inr JUndefined"
| "field (JArr xs) k = Inr JUndefined"

text \<open>
  \<^verbatim>\<open>s.replace(/\D/g, '')\<close>: every character that is not one of 0..9 is dropped.
  A string is the list of its characters.
\<close>

definition is_digit :: "char \<Rightarrow> bool" where
  "is_digit c = (c \<in> set ''0123456789'')"

definition strip_non_digits :: "string \<Rightarrow> string" where
  "strip_non_digits s = filter is_digit s"

section \<open>The component's state, its collaborators and its effects\<close>

text \<open>
  The \<^verbatim>\<open>useState\<close> cells of \<^verbatim>\<open>Header\<close> (lines 26 to 38).  The four charge cells are
  declared \<^verbatim>\<open>string | null\<close> but are assigned fields of an untyped response body, so
  they hold a \<^typ>\<open>jsval\<close>.  The payer cells are only assigned input values: strings.
\<close>

record state =
  isUpdating :: bool
  showUpdateModal :: bool
  updateQrCode :: jsval
  updateQrCodeBase64 :: jsval
  updateTransactionId :: jsval
  updateExpiresAt :: jsval
  copied :: bool
  payerEmail :: string
  payerFirstName :: string
  payerLastName :: string
  payerIdentificationType :: string
  payerIdentificationNumber :: string

definition initial_state :: state where
  "initial_state =
     \<lparr> isUpdating = False, showUpdateModal = False,
       updateQrCode = JNull, updateQrCodeBase64 = JNull,
       updateTransactionId = JNull, updateExpiresAt = JNull,
       copied = False,
       payerEmail = [], payerFirstName = [], payerLastName = [],
       payerIdentificationType = ''CPF'', payerIdentificationNumber = [] \<rparr>"

text \<open>
  The user identity: the \<^verbatim>\<open>userId\<close> prop (optional) and what
  \<^verbatim>\<open>localStorage.getItem('userId')\<close> returns (a string or null).
  Line 41: \<^verbatim>\<open>userId || localStorage.getItem('userId') || ''\<close>.
\<close>

record props =
  userId :: "string option"
  storedUserId :: "string option"

definition currentUserId :: "props \<Rightarrow> string" where
  "currentUserId p =
     (case userId p of
        Some u \<Rightarrow> if u \<noteq> [] then u
                  else (case storedUserId p of Some v \<Rightarrow> v | None \<Rightarrow> [])
      | None \<Rightarrow> (case storedUserId p of Some v \<Rightarrow> v | None \<Rightarrow> []))"

text \<open>
  What \<^verbatim>\<open>authenticatedFetch\<close> resolves to: a response with its status and its body,
  \<open>None\<close> when the body is not JSON (then \<^verbatim>\<open>response.json()\<close> rejects).  The call
  itself may reject: the \<open>Inl\<close> of the sum with \<^typ>\<open>exn\<close>.  \<^verbatim>\<open>response.ok\<close> is the
  Fetch standard's: a status from 200 to 299.
\<close>

record response =
  status :: nat
  body :: "jsval option"

definition ok :: "response \<Rightarrow> bool" where
  "ok r = (200 \<le> status r \<and> status r \<le> 299)"

text \<open>The JSON body of the charge request (lines 115 to 125).\<close>

record identification =
  ident_type :: string
  ident_number :: string

record payer =
  email :: string
  firstName :: string
  lastName :: string
  identification :: identification

text \<open>
  A notice is \<^verbatim>\<open>showNotification(message, severity)\<close>.  The message is either a
  translation \<^verbatim>\<open>t(key)\<close>, kept by its key, or a value taken from a response body.
\<close>

datatype message = T string | Raw jsval

datatype severity = SevError | SevInfo | SevSuccess

text \<open>
  What a handler does besides assigning state cells, in the order of the source:
  notices, the two backend calls, starting the poll of a transaction, cancelling the
  interval the running callback belongs to, writing to the console, and the two
  effects of the clipboard button.
\<close>

datatype effect =
    ShowNotification message severity
  | FetchUpdateRequest payer
  | FetchUpdateStatus jsval
  | PollUpdateStatus jsval
  | ClearInterval
  | ConsoleError
  | ClipboardWrite jsval
  | ResetCopiedLater

section \<open>The handlers\<close>

text \<open>\<^verbatim>\<open>handleUpdatePlatform\<close>, lines 77 to 91.\<close>

definition handleUpdatePlatform :: "props \<Rightarrow> state \<Rightarrow> state \<times> effect list" where
  "handleUpdatePlatform p s =
     (if currentUserId p = []
      then (s, [ShowNotification (T ''header.updateLoginRequired'') SevError])
      else if truthy (updateQrCode s)
      then (s\<lparr>showUpdateModal := True\<rparr>, [])
      else (s\<lparr>showUpdateModal := True\<rparr>, []))"

text \<open>
  \<^verbatim>\<open>handleSubmitUpdate\<close>, lines 93 to 155, in its two halves: up to the
  \<^verbatim>\<open>await authenticatedFetch(...)\<close>, and from the settled call on.
\<close>

definition handleSubmitUpdate_begin :: "props \<Rightarrow> state \<Rightarrow> state \<times> effect list" where
  "handleSubmitUpdate_begin p s =
     (if currentUserId p = []
      then (s, [ShowNotification (T ''header.updateLoginRequired'') SevError])
      else if payerEmail s = [] \<or> payerFirstName s = [] \<or> payerLastName s = []
      then (s, [ShowNotification (T ''wallet.fillPayerInfo'') SevError])
      else if payerIdentificationNumber s = []
      then (s, [ShowNotification (T ''wallet.enterIdentification'') SevError])
      else (s\<lparr>isUpdating := True\<rparr>,
            [FetchUpdateRequest
               \<lparr> email = payerEmail s, firstName = payerFirstName s,
                 lastName = payerLastName s,
                 identification =
                   \<lparr> ident_type = payerIdentificationType s,
                     ident_number = strip_non_digits (payerIdentificationNumber s) \<rparr> \<rparr>]))"

text \<open>The \<^verbatim>\<open>catch\<close> block followed by the \<^verbatim>\<open>finally\<close> block (lines 150 to 154).\<close>

definition submit_caught :: "state \<Rightarrow> state \<times> effect list" where
  "submit_caught s =
     (s\<lparr>isUpdating := False\<rparr>, [ShowNotification (T ''header.updateFailed'') SevError])"

definition handleSubmitUpdate_resume :: "exn + response \<Rightarrow> state \<Rightarrow> state \<times> effect list" where
  "handleSubmitUpdate_resume r s =
     (case r of
        Inl e \<Rightarrow> submit_caught s
      | Inr resp \<Rightarrow>
          (case body resp of
             None \<Rightarrow> submit_caught s
           | Some data \<Rightarrow>
               if status resp = 503
               then (s\<lparr>isUpdating := False\<rparr>,
                     [ShowNotification (T ''wallet.pixNotConfigured'') SevInfo])
               else if \<not> ok resp
               then (case field data ''error'' of
                       Inl x \<Rightarrow> submit_caught s
                     | Inr err \<Rightarrow>
                         (s\<lparr>isUpdating := False\<rparr>,
                          [ShowNotification
                             (if truthy err then Raw err else T ''header.updateFailed'')
                             SevError]))
               else (case (field data ''qrCode'', field data ''qrCodeBase64'',
                           field data ''transactionId'', field data ''expiresAt'') of
                       (Inr qr, Inr b64, Inr tx, Inr ex) \<Rightarrow>
                         (s\<lparr>updateQrCode := qr, updateQrCodeBase64 := b64,
                            updateTransactionId := tx, updateExpiresAt := ex,
                            isUpdating := False\<rparr>,
                          [ShowNotification (T ''header.updateQrCodeGenerated'') SevSuccess,
                           PollUpdateStatus tx])
                     | _ \<Rightarrow> submit_caught s)))"

text \<open>The whole handler when nothing else runs between the call and its answer.\<close>

definition handleSubmitUpdate :: "props \<Rightarrow> exn + response \<Rightarrow> state \<Rightarrow> state \<times> effect list" where
  "handleSubmitUpdate p r s =
     (case handleSubmitUpdate_begin p s of
        (s1, [FetchUpdateRequest q]) \<Rightarrow>
          (case handleSubmitUpdate_resume r s1 of
             (s2, es) \<Rightarrow> (s2, FetchUpdateRequest q # es))
      | (s1, es) \<Rightarrow> (s1, es))"

text \<open>
  \<^verbatim>\<open>copyToClipboard\<close>, lines 157 to 162.  Where the page has no
  \<^verbatim>\<open>navigator.clipboard\<close> (\<open>available\<close> is false), line 158 throws and nothing
  after it runs.
\<close>

definition copyToClipboard :: "bool \<Rightarrow> jsval \<Rightarrow> state \<Rightarrow> state \<times> effect list" where
  "copyToClipboard available text s =
     (if available
      then (s\<lparr>copied := True\<rparr>,
            [ClipboardWrite text,
             ShowNotification (T ''wallet.copiedToClipboard'') SevSuccess,
             ResetCopiedLater])
      else (s, []))"

text \<open>
  The interval callback of \<^verbatim>\<open>pollUpdateStatus\<close> (lines 165 to 198), in its two
  halves: the status call it issues, and what it does with the settled call.
\<close>

definition poll_fire :: "jsval \<Rightarrow> effect list" where
  "poll_fire txId = [FetchUpdateStatus txId]"

definition poll_resume :: "exn + response \<Rightarrow> state \<Rightarrow> state \<times> effect list" where
  "poll_resume r s =
     (case r of
        Inl e \<Rightarrow> (s, [ConsoleError])
      | Inr resp \<Rightarrow>
          if ok resp then
            (case body resp of
               None \<Rightarrow> (s, [ConsoleError])
             | Some data \<Rightarrow>
                 (case field data ''status'' of
                    Inl x \<Rightarrow> (s, [ConsoleError])
                  | Inr st \<Rightarrow>
                      if st = JStr ''completed'' then
                        (s\<lparr>showUpdateModal := False,
                           updateQrCode := JNull, updateQrCodeBase64 := JNull,
                           updateTransactionId := JNull, updateExpiresAt := JNull,
                           payerEmail := [], payerFirstName := [], payerLastName := [],
                           payerIdentificationNumber := []\<rparr>,
                         [ClearInterval,
                          ShowNotification (T ''header.updateCompleted'') SevSuccess])
                      else if st = JStr ''failed'' then
                        (case field data ''errorMessage'' of
                           Inl x \<Rightarrow> (s, [ClearInterval, ConsoleError])
                         | Inr em \<Rightarrow>
                             (s\<lparr>showUpdateModal := False,
                                updateQrCode := JNull, updateQrCodeBase64 := JNull,
                                updateTransactionId := JNull, updateExpiresAt := JNull\<rparr>,
                              [ClearInterval,
                               ShowNotification
                                 (if truthy em then Raw em else T ''header.updateFailed'')
                                 SevError]))
                      else (s, [])))
          else (s, []))"

text \<open>The close button of the update modal, lines 268 to 276.\<close>

definition closeUpdateModal :: "state \<Rightarrow> state \<times> effect list" where
  "closeUpdateModal s =
     (if truthy (updateQrCode s)
      then (s\<lparr>showUpdateModal := False,
              updateQrCode := JNull, updateQrCodeBase64 := JNull,
              updateTransactionId := JNull, updateExpiresAt := JNull\<rparr>, [])
      else (s\<lparr>showUpdateModal := False\<rparr>, []))"

text \<open>The \<^verbatim>\<open>onChange\<close> handlers of the five payer inputs, lines 335 to 398.\<close>

datatype input = Email | FirstName | LastName | IdentificationType | IdentificationNumber

fun setPayer :: "input \<Rightarrow> string \<Rightarrow> state \<Rightarrow> state" where
  "setPayer Email v s = s\<lparr>payerEmail := v\<rparr>"
| "setPayer FirstName v s = s\<lparr>payerFirstName := v\<rparr>"
| "setPayer LastName v s = s\<lparr>payerLastName := v\<rparr>"
| "setPayer IdentificationType v s = s\<lparr>payerIdentificationType := v\<rparr>"
| "setPayer IdentificationNumber v s = s\<lparr>payerIdentificationNumber := v\<rparr>"

text \<open>
  What a settled call reported under the name \<open>k\<close>, in the words of the interval
  callback's tests: the call resolved, \<^verbatim>\<open>response.ok\<close> held, the body parsed, and
  \<^verbatim>\<open>data.k\<close> could be read.  A terminal status is one of the two the callback acts on.
\<close>

definition reported :: "exn + response \<Rightarrow> string \<Rightarrow> jsval option" where
  "reported r k =
     (case r of
        Inl e \<Rightarrow> None
      | Inr resp \<Rightarrow>
          if ok resp then
            (case body resp of
               None \<Rightarrow> None
             | Some data \<Rightarrow>
                 (case field data k of Inl x \<Rightarrow> None | Inr v \<Rightarrow> Some v))
          else None)"

definition terminal :: "exn + response \<Rightarrow> bool" where
  "terminal r =
     (reported r ''status'' = Some (JStr ''completed'') \<or>
      reported r ''status'' = Some (JStr ''failed''))"

section \<open>The component with its timers\<close>

text \<open>
  \<^verbatim>\<open>pollUpdateStatus\<close> (lines 164 to 202) only arms two timers of the runtime:
  \<^verbatim>\<open>setInterval(callback, 3000)\<close> and
  \<^verbatim>\<open>setTimeout(() => clearInterval(interval), 5 * 60 * 1000)\<close>.  To say what
  happens over time, the component's state is put together with the runtime's
  timers, a clock in milliseconds, and the calls that have not settled yet.

  The timers are ideal: a callback runs when its time has come, and the clock does
  not move past a timer that is due.  A backend call settles at any later moment,
  or at once.  The handlers of the logo and of the logout button leave the page and
  are not part of the model.
\<close>

datatype timer_action = CancelInterval nat | ResetCopied

record system =
  ui :: state
  clock :: nat
  intervals :: "(nat \<times> jsval \<times> nat) list"
  timeouts :: "(nat \<times> timer_action) list"
  in_flight :: "nat list"
  submitting :: nat
  next_handle :: nat
  trace :: "(nat \<times> nat option \<times> effect) list"

text \<open>
  \<open>intervals\<close>: handle, transaction id and next due time of every interval that has
  not been cleared.  \<open>timeouts\<close>: due time and action of every pending timeout.
  \<open>in_flight\<close>: the handle of the interval behind every status call that has not
  settled; \<open>submitting\<close>: the number of charge calls that have not settled.
  \<open>trace\<close>: what the component has shown or sent, with the time and, for an interval
  callback, its handle.
\<close>

definition boot :: system where
  "boot = \<lparr> ui = initial_state, clock = 0, intervals = [], timeouts = [],
            in_flight = [], submitting = 0, next_handle = 0, trace = [] \<rparr>"

definition handles :: "system \<Rightarrow> nat set" where
  "handles s = fst ` set (intervals s)"

definition record_effect :: "nat option \<Rightarrow> effect \<Rightarrow> system \<Rightarrow> system" where
  "record_effect who e s = s\<lparr>trace := trace s @ [(clock s, who, e)]\<rparr>"

definition clear_interval :: "nat \<Rightarrow> system \<Rightarrow> system" where
  "clear_interval h s = s\<lparr>intervals := filter (\<lambda>i. fst i \<noteq> h) (intervals s)\<rparr>"

text \<open>
  One effect of a handler, run by \<open>who\<close>: \<open>None\<close> for a handler of the page,
  \<open>Some h\<close> for the callback of interval \<open>h\<close>, whose \<^verbatim>\<open>clearInterval(interval)\<close>
  clears \<open>h\<close>.  \<open>PollUpdateStatus\<close> is the body of \<^verbatim>\<open>pollUpdateStatus\<close>.
\<close>

fun perform :: "nat option \<Rightarrow> effect \<Rightarrow> system \<Rightarrow> system" where
  "perform who (PollUpdateStatus txId) s =
     s\<lparr>intervals := intervals s @ [(next_handle s, txId, clock s + 3000)],
       timeouts := timeouts s @ [(clock s + 5 * 60 * 1000, CancelInterval (next_handle s))],
       next_handle := Suc (next_handle s)\<rparr>"
| "perform who ClearInterval s = (case who of Some h \<Rightarrow> clear_interval h s | None \<Rightarrow> s)"
| "perform who ResetCopiedLater s =
     s\<lparr>timeouts := timeouts s @ [(clock s + 2000, ResetCopied)]\<rparr>"
| "perform who (FetchUpdateRequest q) s =
     record_effect who (FetchUpdateRequest q) (s\<lparr>submitting := Suc (submitting s)\<rparr>)"
| "perform who (FetchUpdateStatus txId) s =
     record_effect who (FetchUpdateStatus txId)
       (case who of Some h \<Rightarrow> s\<lparr>in_flight := h # in_flight s\<rparr> | None \<Rightarrow> s)"
| "perform who (ShowNotification m v) s = record_effect who (ShowNotification m v) s"
| "perform who ConsoleError s = record_effect who ConsoleError s"
| "perform who (ClipboardWrite x) s = record_effect who (ClipboardWrite x) s"

definition settle :: "nat option \<Rightarrow> state \<times> effect list \<Rightarrow> system \<Rightarrow> system" where
  "settle who r s = fold (perform who) (snd r) (s\<lparr>ui := fst r\<rparr>)"

fun run_timeout :: "timer_action \<Rightarrow> system \<Rightarrow> system" where
  "run_timeout (CancelInterval h) s = clear_interval h s"
| "run_timeout ResetCopied s = s\<lparr>ui := (ui s)\<lparr>copied := False\<rparr>\<rparr>"

definition reschedule :: "nat \<Rightarrow> nat \<times> jsval \<times> nat \<Rightarrow> nat \<times> jsval \<times> nat" where
  "reschedule h i = (if fst i = h then (fst i, fst (snd i), snd (snd i) + 3000) else i)"

datatype event =
    Elapse nat
  | ClickUpdate props
  | ClickSubmit props
  | SubmitSettled "exn + response"
  | ClickClose
  | ClickCopy bool
  | Change input string
  | IntervalFires nat
  | StatusSettled nat "exn + response"
  | TimeoutFires nat timer_action

text \<open>
  One event; \<open>None\<close> when it cannot happen in the state: time does not pass a due
  timer, a timer fires only when armed and due, a call settles only when in flight.
  The clicks are not restricted to the buttons the page shows at the moment, so
  what holds of every event holds of every click the page offers.
\<close>

fun step :: "event \<Rightarrow> system \<Rightarrow> system option" where
  "step (Elapse d) s =
     (if 0 < d \<and> list_all (\<lambda>i. clock s + d \<le> snd (snd i)) (intervals s)
            \<and> list_all (\<lambda>t. clock s + d \<le> fst t) (timeouts s)
      then Some (s\<lparr>clock := clock s + d\<rparr>) else None)"
| "step (ClickUpdate p) s = Some (settle None (handleUpdatePlatform p (ui s)) s)"
| "step (ClickSubmit p) s = Some (settle None (handleSubmitUpdate_begin p (ui s)) s)"
| "step (SubmitSettled r) s =
     (if 0 < submitting s
      then Some (settle None (handleSubmitUpdate_resume r (ui s))
                   (s\<lparr>submitting := submitting s - 1\<rparr>))
      else None)"
| "step ClickClose s = Some (settle None (closeUpdateModal (ui s)) s)"
| "step (ClickCopy available) s =
     Some (settle None (copyToClipboard available (updateQrCode (ui s)) (ui s)) s)"
| "step (Change i v) s = Some (s\<lparr>ui := setPayer i v (ui s)\<rparr>)"
| "step (IntervalFires h) s =
     (case find (\<lambda>i. fst i = h) (intervals s) of
        None \<Rightarrow> None
      | Some i \<Rightarrow>
          if snd (snd i) \<le> clock s
          then Some (fold (perform (Some h)) (poll_fire (fst (snd i)))
                       (s\<lparr>intervals := map (reschedule h) (intervals s)\<rparr>))
          else None)"
| "step (StatusSettled h r) s =
     (if h \<in> set (in_flight s)
      then Some (settle (Some h) (poll_resume r (ui s))
                   (s\<lparr>in_flight := remove1 h (in_flight s)\<rparr>))
      else None)"
| "step (TimeoutFires due a) s =
     (if (due, a) \<in> set (timeouts s) \<and> due \<le> clock s
      then Some (run_timeout a (s\<lparr>timeouts := remove1 (due, a) (timeouts s)\<rparr>))
      else None)"

fun run :: "event list \<Rightarrow> system \<Rightarrow> system option" where
  "run [] s = Some s"
| "run (e # es) s = (case step e s of None \<Rightarrow> None | Some s' \<Rightarrow> run es s')"

section \<open>Vocabulary of the properties\<close>

text \<open>
  The status calls an interval has issued, by the time of each: the entries of the
  trace that its callback wrote and that are status calls.  \<open>by_interval\<close> is
  everything its callback wrote.
\<close>

fun is_status_call :: "effect \<Rightarrow> bool" where
  "is_status_call (FetchUpdateStatus txId) = True"
| "is_status_call e = False"

definition status_calls :: "nat \<Rightarrow> system \<Rightarrow> nat list" where
  "status_calls h s =
     map fst (filter (\<lambda>x. fst (snd x) = Some h \<and> is_status_call (snd (snd x))) (trace s))"

definition by_interval :: "nat \<Rightarrow> system \<Rightarrow> (nat \<times> nat option \<times> effect) list" where
  "by_interval h s = filter (\<lambda>x. fst (snd x) = Some h) (trace s)"

text \<open>
  The events that can take interval \<open>h\<close> away: the timeout that clears it, and one
  of its status calls settling with a terminal status.
\<close>

definition stops :: "nat \<Rightarrow> event \<Rightarrow> bool" where
  "stops h e =
     (case e of
        TimeoutFires due a \<Rightarrow> a = CancelInterval h
      | StatusSettled h' r \<Rightarrow> h' = h \<and> terminal r
      | _ \<Rightarrow> False)"

text \<open>
  Invariants of the runs.  \<open>wf\<close>: every handle in use has been handed out.
  \<open>known\<close>: so has the handle of the running callback.  \<open>armed h d\<close>: while
  interval \<open>h\<close> is there, the timeout that clears it is pending; that timeout is
  due at \<open>d\<close>, which the clock has not passed; and no status call of \<open>h\<close> is
  later than \<open>d\<close>.  \<open>gone\<close>: the interval has been cleared.  \<open>quiet\<close>: and none of
  its status calls is in flight.
\<close>

definition wf :: "system \<Rightarrow> bool" where
  "wf s =
     ((\<forall>h \<in> handles s. h < next_handle s) \<and>
      (\<forall>h \<in> set (in_flight s). h < next_handle s) \<and>
      (\<forall>t \<in> set (timeouts s). \<forall>h. snd t = CancelInterval h \<longrightarrow> h < next_handle s) \<and>
      (\<forall>x \<in> set (trace s). \<forall>h. fst (snd x) = Some h \<longrightarrow> h < next_handle s))"

definition known :: "nat option \<Rightarrow> system \<Rightarrow> bool" where
  "known who s = (case who of None \<Rightarrow> True | Some h \<Rightarrow> h < next_handle s)"

definition armed :: "nat \<Rightarrow> nat \<Rightarrow> system \<Rightarrow> bool" where
  "armed h d s =
     (h < next_handle s \<and>
      (h \<in> handles s \<longrightarrow> (d, CancelInterval h) \<in> set (timeouts s)) \<and>
      (\<forall>t \<in> set (timeouts s). snd t = CancelInterval h \<longrightarrow> fst t = d \<and> clock s \<le> d) \<and>
      (\<forall>t \<in> set (status_calls h s). t \<le> d))"

definition gone :: "nat \<Rightarrow> system \<Rightarrow> bool" where
  "gone h s = (h \<notin> handles s \<and> h < next_handle s)"

definition quiet :: "nat \<Rightarrow> system \<Rightarrow> bool" where
  "quiet h s = (gone h s \<and> h \<notin> set (in_flight s))"

section \<open>Sample inputs\<close>

text \<open>
  A user who is logged in and one who is not; the form as filled in, and the same
  state with a payment code shown; the bodies the backend answers with.
\<close>

definition user :: props where
  "user = \<lparr>userId = Some ''user-1'', storedUserId = None\<rparr>"

definition nobody :: props where
  "nobody = \<lparr>userId = None, storedUserId = None\<rparr>"

definition form_state :: state where
  "form_state =
     \<lparr> isUpdating = False, showUpdateModal = True,
       updateQrCode = JNull, updateQrCodeBase64 = JNull,
       updateTransactionId = JNull, updateExpiresAt = JNull,
       copied = False,
       payerEmail = ''ana@example.com'', payerFirstName = ''Ana'', payerLastName = ''Silva'',
       payerIdentificationType = ''CPF'', payerIdentificationNumber = ''000.000.000-00'' \<rparr>"

definition shown_state :: state where
  "shown_state =
     form_state\<lparr>updateQrCode := JStr ''00020126'', updateQrCodeBase64 := JStr ''data:image/png'',
       updateTransactionId := JStr ''tx-1'', updateExpiresAt := JStr ''2026-01-01T00:00:00Z''\<rparr>"

definition sample_payer :: payer where
  "sample_payer =
     \<lparr> email = ''ana@example.com'', firstName = ''Ana'', lastName = ''Silva'',
       identification = \<lparr> ident_type = ''CPF'', ident_number = ''00000000000'' \<rparr> \<rparr>"

definition charge_response :: "exn + response" where
  "charge_response =
     Inr \<lparr>status = 200,
          body = Some (JObj [(''qrCode'', JStr ''00020126''),
                             (''qrCodeBase64'', JStr ''data:image/png''),
                             (''transactionId'', JStr ''tx-1''),
                             (''expiresAt'', JStr ''2026-01-01T00:00:00Z'')])\<rparr>"

definition pending_response :: "exn + response" where
  "pending_response = Inr \<lparr>status = 200, body = Some (JObj [(''status'', JStr ''pending'')])\<rparr>"

definition completed_response :: "exn + response" where
  "completed_response = Inr \<lparr>status = 200, body = Some (JObj [(''status'', JStr ''completed'')])\<rparr>"

definition failed_response :: "exn + response" where
  "failed_response =
     Inr \<lparr>status = 200,
          body = Some (JObj [(''status'', JStr ''failed''), (''errorMessage'', JStr ''X'')])\<rparr>"

text \<open>
  A sample run: the user opens the modal, fills the form in and submits it
  (\<open>charging\<close>); the backend answers with a payment code, which starts the poll;
  then the interval ticks, each status call answered \<^verbatim>\<open>pending\<close> before the next
  (\<open>tick\<close>).  \<open>ticking n\<close> is the state after \<open>n\<close> such ticks.
\<close>

definition charging :: "event list" where
  "charging =
     [ClickUpdate user,
      Change Email ''ana@example.com'', Change FirstName ''Ana'', Change LastName ''Silva'',
      Change IdentificationNumber ''000.000.000-00'',
      ClickSubmit user]"

definition charging_sys :: system where
  "charging_sys =
     \<lparr> ui = form_state\<lparr>isUpdating := True\<rparr>, clock = 0, intervals = [], timeouts = [],
       in_flight = [], submitting = 1, next_handle = 0,
       trace = [(0, None, FetchUpdateRequest sample_payer)] \<rparr>"

definition base_trace :: "(nat \<times> nat option \<times> effect) list" where
  "base_trace =
     [(0, None, FetchUpdateRequest sample_payer),
      (0, None, ShowNotification (T ''header.updateQrCodeGenerated'') SevSuccess)]"

definition ticking :: "nat \<Rightarrow> system" where
  "ticking n =
     \<lparr> ui = shown_state, clock = 3000 * n,
       intervals = [(0, JStr ''tx-1'', 3000 * n + 3000)],
       timeouts = [(300000, CancelInterval 0)],
       in_flight = [], submitting = 0, next_handle = 1,
       trace = base_trace @ map (\<lambda>k. (3000 * k + 3000, Some 0, FetchUpdateStatus (JStr ''tx-1''))) [0..<n] \<rparr>"

definition tick :: "event list" where
  "tick = [Elapse 3000, IntervalFires 0, StatusSettled 0 pending_response]"

text \<open>
  More answers of the backend: a failure without a message, a status call that is
  answered with HTTP 500, one whose body is not JSON, and a charge request that is
  answered with HTTP 503 and a body that is not JSON.
\<close>

definition failed_plain_response :: "exn + response" where
  "failed_plain_response =
     Inr \<lparr>status = 200, body = Some (JObj [(''status'', JStr ''failed'')])\<rparr>"

definition error_response :: "exn + response" where
  "error_response =
     Inr \<lparr>status = 500, body = Some (JObj [(''status'', JStr ''completed'')])\<rparr>"

definition malformed_response :: "exn + response" where
  "malformed_response = Inr \<lparr>status = 200, body = None\<rparr>"

definition html_503 :: "exn + response" where
  "html_503 = Inr \<lparr>status = 503, body = None\<rparr>"

text \<open>
  More states of the form: closed; with letters for an identification number; with
  no identification number.
\<close>

definition closed_form :: state where
  "closed_form = form_state\<lparr>showUpdateModal := False\<rparr>"

definition letters_state :: state where
  "letters_state = form_state\<lparr>payerIdentificationNumber := ''abc''\<rparr>"

definition no_number_state :: state where
  "no_number_state = form_state\<lparr>payerIdentificationNumber := []\<rparr>"

text \<open>
  States of the sample run: \<open>polling_sys\<close> after the first tick has issued its
  status call (the run \<open>first_call\<close>), and what that call leads to when it settles
  with \<^verbatim>\<open>completed\<close> (\<open>done_sys\<close>) or with \<^verbatim>\<open>failed\<close> and the message \<^verbatim>\<open>X\<close>
  (\<open>failed_sys\<close>).
\<close>

definition first_call :: "event list" where
  "first_call = charging @ [SubmitSettled charge_response] @ [Elapse 3000, IntervalFires 0]"

definition polling_sys :: system where
  "polling_sys =
     \<lparr> ui = shown_state, clock = 3000,
       intervals = [(0, JStr ''tx-1'', 6000)],
       timeouts = [(300000, CancelInterval 0)],
       in_flight = [0], submitting = 0, next_handle = 1,
       trace = base_trace @ [(3000, Some 0, FetchUpdateStatus (JStr ''tx-1''))] \<rparr>"

definition done_sys :: system where
  "done_sys =
     \<lparr> ui = shown_state\<lparr>showUpdateModal := False,
              updateQrCode := JNull, updateQrCodeBase64 := JNull,
              updateTransactionId := JNull, updateExpiresAt := JNull,
              payerEmail := [], payerFirstName := [], payerLastName := [],
              payerIdentificationNumber := []\<rparr>,
       clock = 3000, intervals = [],
       timeouts = [(300000, CancelInterval 0)],
       in_flight = [], submitting = 0, next_handle = 1,
       trace = base_trace @ [(3000, Some 0, FetchUpdateStatus (JStr ''tx-1'')),
                 (3000, Some 0, ShowNotification (T ''header.updateCompleted'') SevSuccess)] \<rparr>"

definition failed_sys :: system where
  "failed_sys =
     \<lparr> ui = shown_state\<lparr>showUpdateModal := False,
              updateQrCode := JNull, updateQrCodeBase64 := JNull,
              updateTransactionId := JNull, updateExpiresAt := JNull\<rparr>,
       clock = 3000, intervals = [],
       timeouts = [(300000, CancelInterval 0)],
       in_flight = [], submitting = 0, next_handle = 1,
       trace = base_trace @ [(3000, Some 0, FetchUpdateStatus (JStr ''tx-1'')),
                 (3000, Some 0, ShowNotification (Raw (JStr ''X'')) SevError)] \<rparr>"

text \<open>
  The sample run up to the ceiling: 99 ticks and three more seconds bring the
  clock to 300000 (\<open>at_cutoff\<close>), where the timeout clears the interval
  (\<open>expired_sys\<close>).  In \<open>late_run\<close> the 99th status call is not answered before the
  ceiling: it is still in flight half a second after it (\<open>late_sys\<close>), and
  \<open>late_done\<close> is the state once it has settled with \<^verbatim>\<open>completed\<close>.
\<close>

definition cutoff_run :: "event list" where
  "cutoff_run = concat (replicate 99 tick) @ [Elapse 3000]"

definition at_cutoff :: system where
  "at_cutoff = (ticking 99)\<lparr>clock := 300000\<rparr>"

definition expired_sys :: system where
  "expired_sys = (ticking 99)\<lparr>clock := 300000, intervals := [], timeouts := []\<rparr>"

definition late_run :: "event list" where
  "late_run =
     concat (replicate 98 tick) @
     [Elapse 3000, IntervalFires 0, Elapse 3000, TimeoutFires 300000 (CancelInterval 0),
      Elapse 500]"

definition late_sys :: system where
  "late_sys =
     \<lparr> ui = shown_state, clock = 300500, intervals = [], timeouts = [],
       in_flight = [0], submitting = 0, next_handle = 1,
       trace = trace (ticking 98) @ [(297000, Some 0, FetchUpdateStatus (JStr ''tx-1''))] \<rparr>"

definition late_done :: system where
  "late_done =
     \<lparr> ui = shown_state\<lparr>showUpdateModal := False,
              updateQrCode := JNull, updateQrCodeBase64 := JNull,
              updateTransactionId := JNull, updateExpiresAt := JNull,
              payerEmail := [], payerFirstName := [], payerLastName := [],
              payerIdentificationNumber := []\<rparr>,
       clock = 300500, intervals = [], timeouts = [],
       in_flight = [], submitting = 0, next_handle = 1,
       trace = trace late_sys @
                 [(300500, Some 0, ShowNotification (T ''header.updateCompleted'') SevSuccess)] \<rparr>"

text \<open>
  The sample run with the modal closed while the first status call is in flight:
  \<open>closed_polling_sys\<close> is the state three seconds after the close, once the
  interval has ticked again.
\<close>

definition closed_polling_sys :: system where
  "closed_polling_sys =
     \<lparr> ui = shown_state\<lparr>showUpdateModal := False,
              updateQrCode := JNull, updateQrCodeBase64 := JNull,
              updateTransactionId := JNull, updateExpiresAt := JNull\<rparr>,
       clock = 6000,
       intervals = [(0, JStr ''tx-1'', 9000)],
       timeouts = [(300000, CancelInterval 0)],
       in_flight = [0, 0], submitting = 0, next_handle = 1,
       trace = base_trace @ [(3000, Some 0, FetchUpdateStatus (JStr ''tx-1'')),
                             (6000, Some 0, FetchUpdateStatus (JStr ''tx-1''))] \<rparr>"

section \<open>Properties of the handlers\<close>

text \<open>
  A body that lets one field be read lets every field be read; so the three
  outcomes of the interval callback are told apart by the status alone.
\<close>

lemma field_ok: "field data k = Inr v \<Longrightarrow> field data k' \<noteq> Inl x"
  by (cases data) auto

lemma reported_both:
  "reported r k = Some v \<Longrightarrow> \<exists>w. reported r k' = Some w"
  by (auto simp: reported_def split: sum.splits if_splits option.splits dest: field_ok)

lemma poll_resume_completed:
  "reported r ''status'' = Some (JStr ''completed'') \<Longrightarrow>
   poll_resume r s =
     (s\<lparr>showUpdateModal := False,
        updateQrCode := JNull, updateQrCodeBase64 := JNull,
        updateTransactionId := JNull, updateExpiresAt := JNull,
        payerEmail := [], payerFirstName := [], payerLastName := [],
        payerIdentificationNumber := []\<rparr>,
      [ClearInterval, ShowNotification (T ''header.updateCompleted'') SevSuccess])"
  by (auto simp: reported_def poll_resume_def split: sum.splits if_splits option.splits)

lemma poll_resume_failed:
  "reported r ''status'' = Some (JStr ''failed'') \<Longrightarrow>
   reported r ''errorMessage'' = Some em \<Longrightarrow>
   poll_resume r s =
     (s\<lparr>showUpdateModal := False,
        updateQrCode := JNull, updateQrCodeBase64 := JNull,
        updateTransactionId := JNull, updateExpiresAt := JNull\<rparr>,
      [ClearInterval,
       ShowNotification (if truthy em then Raw em else T ''header.updateFailed'') SevError])"
  by (auto simp: reported_def poll_resume_def split: sum.splits if_splits option.splits)

lemma poll_resume_pending:
  "\<not> terminal r \<Longrightarrow> poll_resume r s = (s, []) \<or> poll_resume r s = (s, [ConsoleError])"
  by (auto simp: terminal_def reported_def poll_resume_def split: sum.splits if_splits option.splits)


section \<open>Invariants of the runs\<close>

text \<open>
  A property that every effect keeps is kept by a handler's list of effects.  The
  lemmas below take the fields of the system through \<open>perform\<close>, \<open>settle\<close>
  and \<open>step\<close>, first for the rule that handles are fresh (\<open>wf\<close>).
\<close>

lemma fold_perform_inv:
  assumes "\<And>e s. e \<in> set es \<Longrightarrow> P s \<Longrightarrow> P (perform who e s)" and "P s"
  shows "P (fold (perform who) es s)"
  using assms by (induction es arbitrary: s) auto

lemma fst_reschedule [simp]: "fst (reschedule h i) = fst i"
  by (simp add: reschedule_def)

lemma fst_map_reschedule: "fst ` reschedule h ` A = fst ` A"
  by (simp add: image_image)

lemma clear_interval_fields [simp]:
  "ui (clear_interval h s) = ui s"
  "clock (clear_interval h s) = clock s"
  "timeouts (clear_interval h s) = timeouts s"
  "in_flight (clear_interval h s) = in_flight s"
  "submitting (clear_interval h s) = submitting s"
  "next_handle (clear_interval h s) = next_handle s"
  "trace (clear_interval h s) = trace s"
  by (simp_all add: clear_interval_def)

lemma record_effect_fields [simp]:
  "ui (record_effect who e s) = ui s"
  "clock (record_effect who e s) = clock s"
  "intervals (record_effect who e s) = intervals s"
  "timeouts (record_effect who e s) = timeouts s"
  "in_flight (record_effect who e s) = in_flight s"
  "submitting (record_effect who e s) = submitting s"
  "next_handle (record_effect who e s) = next_handle s"
  "trace (record_effect who e s) = trace s @ [(clock s, who, e)]"
  by (simp_all add: record_effect_def)

lemma handles_simps [simp]:
  "handles (s\<lparr>ui := u\<rparr>) = handles s"
  "handles (s\<lparr>clock := c\<rparr>) = handles s"
  "handles (s\<lparr>timeouts := ts\<rparr>) = handles s"
  "handles (s\<lparr>in_flight := fl\<rparr>) = handles s"
  "handles (s\<lparr>submitting := n\<rparr>) = handles s"
  "handles (s\<lparr>next_handle := k\<rparr>) = handles s"
  "handles (s\<lparr>trace := tr\<rparr>) = handles s"
  "handles (s\<lparr>intervals := map (reschedule h) (intervals s)\<rparr>) = handles s"
  "handles (s\<lparr>intervals := intervals s @ [(k, x, d)]\<rparr>) = insert k (handles s)"
  by (simp_all add: handles_def fst_map_reschedule)

lemma handles_clear [simp]: "handles (clear_interval h s) = handles s - {h}"
  by (auto simp: handles_def clear_interval_def)

lemma handles_record [simp]: "handles (record_effect who e s) = handles s"
  by (simp add: record_effect_def)

lemma handles_perform:
  "handles (perform who e s) =
     (case e of
        PollUpdateStatus x \<Rightarrow> insert (next_handle s) (handles s)
      | ClearInterval \<Rightarrow> (case who of Some h \<Rightarrow> handles s - {h} | None \<Rightarrow> handles s)
      | _ \<Rightarrow> handles s)"
  by (cases e; cases who) simp_all

lemma wf_perform: "wf s \<and> known who s \<Longrightarrow> wf (perform who e s) \<and> known who (perform who e s)"
  by (cases e; cases who) (auto simp: wf_def known_def less_Suc_eq)

lemma wf_settle: "wf s \<Longrightarrow> known who s \<Longrightarrow> wf (fold (perform who) es s)"
  using fold_perform_inv [where P = "\<lambda>s. wf s \<and> known who s" and who = who and es = es and s = s]
    wf_perform by blast

lemma wf_upd [simp]:
  "wf (s\<lparr>ui := u\<rparr>) = wf s"
  "wf (s\<lparr>clock := c\<rparr>) = wf s"
  "wf (s\<lparr>submitting := n\<rparr>) = wf s"
  by (simp_all add: wf_def)

lemma known_upd [simp]:
  "known who (s\<lparr>ui := u\<rparr>) = known who s"
  "known who (s\<lparr>clock := c\<rparr>) = known who s"
  "known who (s\<lparr>submitting := n\<rparr>) = known who s"
  "known who (s\<lparr>in_flight := fl\<rparr>) = known who s"
  "known who (s\<lparr>intervals := is\<rparr>) = known who s"
  "known who (s\<lparr>timeouts := ts\<rparr>) = known who s"
  "known None s"
  by (simp_all add: known_def split: option.splits)

lemma wf_settle': "wf s \<Longrightarrow> known who s \<Longrightarrow> wf (settle who r s)"
  by (simp add: settle_def wf_settle)

lemma find_handle: "find (\<lambda>i. fst i = h) is = Some i \<Longrightarrow> h \<in> fst ` set is"
  by (auto simp: find_Some_iff image_iff)

lemma in_remove1: "x \<in> set (remove1 y xs) \<Longrightarrow> x \<in> set xs"
  by (metis notin_set_remove1)

lemma wf_mono:
  assumes "wf s" "handles s' \<subseteq> handles s" "set (in_flight s') \<subseteq> set (in_flight s)"
    "set (timeouts s') \<subseteq> set (timeouts s)" "set (trace s') \<subseteq> set (trace s)"
    "next_handle s \<le> next_handle s'"
  shows "wf s'"
proof -
  have "\<And>h. h < next_handle s \<Longrightarrow> h < next_handle s'"
    using assms(6) by simp
  with assms(1-5) show ?thesis unfolding wf_def by blast
qed

lemma wf_step: "wf s \<Longrightarrow> step e s = Some s' \<Longrightarrow> wf s'"
proof (cases e)
  case (IntervalFires h)
  assume w: "wf s" and st: "step e s = Some s'"
  from st IntervalFires obtain i where f: "find (\<lambda>i. fst i = h) (intervals s) = Some i"
    and s': "s' = fold (perform (Some h)) (poll_fire (fst (snd i)))
                       (s\<lparr>intervals := map (reschedule h) (intervals s)\<rparr>)"
    by (auto split: option.splits if_splits)
  from f have "h \<in> handles s" by (simp add: handles_def find_handle)
  with w have k: "known (Some h) s" by (simp add: wf_def known_def)
  from w have "wf (s\<lparr>intervals := map (reschedule h) (intervals s)\<rparr>)"
    by (simp add: wf_def)
  with k show ?thesis unfolding s' by (simp add: wf_settle)
next
  case (StatusSettled h r)
  assume w: "wf s" and st: "step e s = Some s'"
  from st StatusSettled have m: "h \<in> set (in_flight s)"
    and s': "s' = settle (Some h) (poll_resume r (ui s)) (s\<lparr>in_flight := remove1 h (in_flight s)\<rparr>)"
    by (auto split: if_splits)
  from m w have k: "known (Some h) s" by (simp add: wf_def known_def)
  from w have "wf (s\<lparr>in_flight := remove1 h (in_flight s)\<rparr>)"
    by (rule wf_mono) (auto dest: in_remove1)
  with k show ?thesis unfolding s' by (simp add: wf_settle')
next
  case (TimeoutFires due a)
  assume w: "wf s" and st: "step e s = Some s'"
  from st TimeoutFires have s': "s' = run_timeout a (s\<lparr>timeouts := remove1 (due, a) (timeouts s)\<rparr>)"
    by (auto split: if_splits)
  show ?thesis
  proof (cases a)
    case (CancelInterval k)
    show ?thesis unfolding s' CancelInterval using w
      by (rule wf_mono) (auto dest: in_remove1)
  next
    case ResetCopied
    show ?thesis unfolding s' ResetCopied using w
      by (rule wf_mono) (auto dest: in_remove1)
  qed
qed (auto simp: wf_settle' split: if_splits)

lemma wf_boot: "wf boot"
  by (simp add: wf_def boot_def handles_def)

lemma wf_run: "wf s \<Longrightarrow> run es s = Some s' \<Longrightarrow> wf s'"
  by (induction es arbitrary: s) (auto split: option.splits dest: wf_step)

subsection \<open>What clears an interval\<close>

lemma perform_keeps:
  "h \<in> handles s \<Longrightarrow> (who = Some h \<longrightarrow> e \<noteq> ClearInterval) \<Longrightarrow> h \<in> handles (perform who e s)"
  by (auto simp: handles_perform split: effect.splits option.splits)

lemma fold_keeps:
  "h \<in> handles s \<Longrightarrow> (who = Some h \<longrightarrow> ClearInterval \<notin> set es) \<Longrightarrow>
   h \<in> handles (fold (perform who) es s)"
  by (rule fold_perform_inv [where P = "\<lambda>s. h \<in> handles s"]) (auto intro: perform_keeps)

lemma settle_keeps:
  "h \<in> handles s \<Longrightarrow> (who = Some h \<longrightarrow> ClearInterval \<notin> set (snd r)) \<Longrightarrow>
   h \<in> handles (settle who r s)"
  by (simp add: settle_def fold_keeps)

lemma poll_resume_clear: "ClearInterval \<in> set (snd (poll_resume r u)) \<Longrightarrow> terminal r"
  by (auto simp: terminal_def reported_def poll_resume_def split: sum.splits if_splits option.splits)

lemma step_stops:
  assumes "step e s = Some s'" "h \<in> handles s" "h \<notin> handles s'"
  shows "stops h e"
proof (cases e)
  case (IntervalFires k)
  with assms show ?thesis
    by (auto simp: poll_fire_def split: option.splits if_splits)
next
  case (StatusSettled k r)
  with assms have "k = h \<and> ClearInterval \<in> set (snd (poll_resume r (ui s)))"
    by (auto split: if_splits dest: settle_keeps [where who = "Some k" and r = "poll_resume r (ui s)" and s = "s\<lparr>in_flight := remove1 k (in_flight s)\<rparr>" and h = h, simplified])
  with StatusSettled show ?thesis by (auto simp: stops_def dest: poll_resume_clear)
next
  case (TimeoutFires due a)
  with assms show ?thesis by (cases a) (auto simp: stops_def split: if_splits)
qed (use assms in \<open>auto simp: settle_keeps split: if_splits\<close>)

lemma run_keeps:
  "run es s = Some s' \<Longrightarrow> h \<in> handles s \<Longrightarrow> \<forall>e \<in> set es. \<not> stops h e \<Longrightarrow> h \<in> handles s'"
proof (induction es arbitrary: s)
  case Nil
  then show ?case by simp
next
  case (Cons e es)
  then obtain s1 where s1: "step e s = Some s1" and r: "run es s1 = Some s'"
    by (auto split: option.splits)
  from Cons.prems s1 have "h \<in> handles s1"
    using step_stops by fastforce
  with Cons.IH [OF r] Cons.prems show ?case by simp
qed


subsection \<open>Status calls\<close>

lemma status_calls_upd [simp]:
  "status_calls h (s\<lparr>ui := u\<rparr>) = status_calls h s"
  "status_calls h (s\<lparr>clock := c\<rparr>) = status_calls h s"
  "status_calls h (s\<lparr>intervals := is\<rparr>) = status_calls h s"
  "status_calls h (s\<lparr>timeouts := ts\<rparr>) = status_calls h s"
  "status_calls h (s\<lparr>in_flight := fl\<rparr>) = status_calls h s"
  "status_calls h (s\<lparr>submitting := n\<rparr>) = status_calls h s"
  "status_calls h (s\<lparr>next_handle := k\<rparr>) = status_calls h s"
  "status_calls h (clear_interval k s) = status_calls h s"
  by (simp_all add: status_calls_def)

lemma status_calls_record [simp]:
  "status_calls h (record_effect who e s) =
     (if who = Some h \<and> is_status_call e then status_calls h s @ [clock s] else status_calls h s)"
  by (simp add: status_calls_def)

lemma status_calls_perform:
  "who = Some h \<longrightarrow> \<not> is_status_call e \<Longrightarrow> status_calls h (perform who e s) = status_calls h s"
  by (cases e; cases who) auto

lemma status_calls_fold:
  "who = Some h \<longrightarrow> (\<forall>e \<in> set es. \<not> is_status_call e) \<Longrightarrow>
   status_calls h (fold (perform who) es s) = status_calls h s"
  by (induction es arbitrary: s) (auto simp: status_calls_perform)

lemma status_calls_settle:
  "who = Some h \<longrightarrow> (\<forall>e \<in> set (snd r). \<not> is_status_call e) \<Longrightarrow>
   status_calls h (settle who r s) = status_calls h s"
  by (simp add: settle_def status_calls_fold)

lemma poll_resume_no_call: "e \<in> set (snd (poll_resume r u)) \<Longrightarrow> \<not> is_status_call e"
  by (auto simp: poll_resume_def split: sum.splits if_splits option.splits)

lemma step_status_calls:
  assumes "step e s = Some s'"
  shows "status_calls h s' =
           (if e = IntervalFires h then status_calls h s @ [clock s] else status_calls h s)"
proof (cases e)
  case (IntervalFires k)
  with assms show ?thesis
    by (auto simp: poll_fire_def split: option.splits if_splits)
next
  case (StatusSettled k r)
  with assms show ?thesis
    by (auto simp: status_calls_settle poll_resume_no_call split: if_splits)
next
  case (TimeoutFires due a)
  with assms show ?thesis by (cases a) (auto split: if_splits)
qed (use assms in \<open>auto simp: status_calls_settle split: if_splits\<close>)

lemma step_interval_active: "step (IntervalFires h) s = Some s' \<Longrightarrow> h \<in> handles s"
  by (auto simp: handles_def split: option.splits dest: find_handle)

subsection \<open>A cleared interval stays cleared\<close>

lemma next_handle_perform: "next_handle s \<le> next_handle (perform who e s)"
  by (cases e; cases who) auto

lemma gone_perform: "gone h s \<Longrightarrow> gone h (perform who e s)"
  by (auto simp: gone_def handles_perform split: effect.splits option.splits
           intro: less_le_trans [OF _ next_handle_perform])

lemma gone_upd [simp]:
  "gone h (s\<lparr>ui := u\<rparr>) = gone h s"
  "gone h (s\<lparr>clock := c\<rparr>) = gone h s"
  "gone h (s\<lparr>timeouts := ts\<rparr>) = gone h s"
  "gone h (s\<lparr>in_flight := fl\<rparr>) = gone h s"
  "gone h (s\<lparr>submitting := n\<rparr>) = gone h s"
  "gone h (s\<lparr>trace := tr\<rparr>) = gone h s"
  "gone h (s\<lparr>intervals := map (reschedule k) (intervals s)\<rparr>) = gone h s"
  "gone h (record_effect who e s) = gone h s"
  by (simp_all add: gone_def)

lemma gone_clear: "gone h s \<Longrightarrow> gone h (clear_interval k s)"
  by (simp add: gone_def)

lemma gone_settle: "gone h s \<Longrightarrow> gone h (settle who r s)"
  unfolding settle_def
  by (rule fold_perform_inv [where P = "gone h"]) (simp_all add: gone_perform)

lemma gone_step: "gone h s \<Longrightarrow> step e s = Some s' \<Longrightarrow> gone h s'"
proof (cases e)
  case (IntervalFires k)
  assume "gone h s" "step e s = Some s'"
  with IntervalFires show ?thesis
    by (auto simp: poll_fire_def gone_perform split: option.splits if_splits)
next
  case (TimeoutFires due a)
  assume "gone h s" "step e s = Some s'"
  with TimeoutFires show ?thesis by (cases a) (auto simp: gone_clear split: if_splits)
qed (auto simp: gone_settle split: if_splits)

lemma gone_run:
  "gone h s \<Longrightarrow> run es s = Some s' \<Longrightarrow> gone h s' \<and> status_calls h s' = status_calls h s"
proof (induction es arbitrary: s)
  case Nil
  then show ?case by simp
next
  case (Cons e es)
  then obtain s1 where s1: "step e s = Some s1" and r: "run es s1 = Some s'"
    by (auto split: option.splits)
  from Cons.prems(1) s1 have g: "gone h s1" by (rule gone_step)
  have "e \<noteq> IntervalFires h"
    using Cons.prems(1) s1 step_interval_active by (auto simp: gone_def)
  with s1 have "status_calls h s1 = status_calls h s" by (simp add: step_status_calls)
  with Cons.IH [OF g r] show ?case by simp
qed


subsection \<open>The cutoff of an interval\<close>

lemma timeouts_perform:
  "timeouts (perform who e s) =
     (case e of
        PollUpdateStatus x \<Rightarrow> timeouts s @ [(clock s + 300000, CancelInterval (next_handle s))]
      | ResetCopiedLater \<Rightarrow> timeouts s @ [(clock s + 2000, ResetCopied)]
      | _ \<Rightarrow> timeouts s)"
  by (cases e; cases who) simp_all

lemma clock_perform [simp]: "clock (perform who e s) = clock s"
  by (cases e; cases who) simp_all

lemma armed_perform:
  "armed h d s \<Longrightarrow> who = Some h \<longrightarrow> \<not> is_status_call e \<Longrightarrow> armed h d (perform who e s)"
  unfolding armed_def
  by (auto simp: handles_perform timeouts_perform status_calls_perform
           intro: less_le_trans [OF _ next_handle_perform]
           split: effect.splits option.splits)

lemma armed_fold:
  "armed h d s \<Longrightarrow> who = Some h \<longrightarrow> (\<forall>e \<in> set es. \<not> is_status_call e) \<Longrightarrow>
   armed h d (fold (perform who) es s)"
  by (rule fold_perform_inv [where P = "armed h d"]) (auto simp: armed_perform)

lemma armed_upd [simp]:
  "armed h d (s\<lparr>ui := u\<rparr>) = armed h d s"
  "armed h d (s\<lparr>in_flight := fl\<rparr>) = armed h d s"
  "armed h d (s\<lparr>submitting := n\<rparr>) = armed h d s"
  "armed h d (s\<lparr>intervals := map (reschedule k) (intervals s)\<rparr>) = armed h d s"
  by (simp_all add: armed_def)

lemma armed_settle:
  "armed h d s \<Longrightarrow> who = Some h \<longrightarrow> (\<forall>e \<in> set (snd r). \<not> is_status_call e) \<Longrightarrow>
   armed h d (settle who r s)"
  by (simp add: settle_def armed_fold)

lemma armed_step:
  assumes a: "armed h d s" and st: "step e s = Some s'"
  shows "armed h d s'"
proof (cases e)
  case (Elapse n)
  with st have g: "\<forall>t \<in> set (timeouts s). clock s + n \<le> fst t" and s': "s' = s\<lparr>clock := clock s + n\<rparr>"
    by (auto simp: list_all_iff split: if_splits)
  from a g show ?thesis unfolding s' armed_def by fastforce
next
  case (IntervalFires k)
  with st obtain i where f: "find (\<lambda>i. fst i = k) (intervals s) = Some i"
    and s': "s' = record_effect (Some k) (FetchUpdateStatus (fst (snd i)))
                    (s\<lparr>intervals := map (reschedule k) (intervals s), in_flight := k # in_flight s\<rparr>)"
    by (auto simp: poll_fire_def split: option.splits if_splits)
  from f have "k \<in> handles s" by (simp add: handles_def find_handle)
  with a have "k = h \<Longrightarrow> clock s \<le> d" by (auto simp: armed_def)
  with a show ?thesis unfolding s' by (auto simp: armed_def)
next
  case (StatusSettled k r)
  with a st show ?thesis
    by (auto simp: armed_settle poll_resume_no_call split: if_splits)
next
  case (TimeoutFires due a')
  with st have m: "(due, a') \<in> set (timeouts s)" "due \<le> clock s"
    and s': "s' = run_timeout a' (s\<lparr>timeouts := remove1 (due, a') (timeouts s)\<rparr>)"
    by (auto split: if_splits)
  show ?thesis
  proof (cases "a' = CancelInterval h")
    case True
    with a show ?thesis unfolding s' by (auto simp: armed_def dest: in_remove1)
  next
    case False
    then have "(d, CancelInterval h) \<in> set (remove1 (due, a') (timeouts s))
                 \<longleftrightarrow> (d, CancelInterval h) \<in> set (timeouts s)"
      by (auto simp: in_set_remove1)
    with a False show ?thesis unfolding s'
      by (cases a') (auto simp: armed_def dest: in_remove1)
  qed
qed (use a st in \<open>auto simp: armed_settle split: if_splits\<close>)

lemma armed_run: "armed h d s \<Longrightarrow> run es s = Some s' \<Longrightarrow> armed h d s'"
  by (induction es arbitrary: s) (auto split: option.splits dest: armed_step)

subsection \<open>Where an interval starts\<close>

lemma handles_fold_subset:
  "\<forall>x. PollUpdateStatus x \<notin> set es \<Longrightarrow> handles (fold (perform who) es s) \<subseteq> handles s"
  by (rule fold_perform_inv [where P = "\<lambda>t. handles t \<subseteq> handles s"])
     (auto simp: handles_perform split: effect.splits option.splits)

lemma status_calls_fresh: "wf s \<Longrightarrow> next_handle s \<le> h \<Longrightarrow> status_calls h s = []"
  by (fastforce simp: wf_def status_calls_def filter_empty_conv)

lemma armed_poll_start:
  assumes "wf s"
  shows "armed (next_handle s) (clock s + 300000) (perform None (PollUpdateStatus x) s)"
proof -
  have "status_calls (next_handle s) s = []"
    using assms by (simp add: status_calls_fresh)
  moreover have "\<forall>t \<in> set (timeouts s). snd t \<noteq> CancelInterval (next_handle s)"
    using assms by (fastforce simp: wf_def)
  ultimately show ?thesis by (auto simp: armed_def)
qed

lemma handles_settle_subset:
  "\<forall>x. PollUpdateStatus x \<notin> set (snd r) \<Longrightarrow> handles (settle who r s) \<subseteq> handles s"
  using handles_fold_subset [of "snd r" who "s\<lparr>ui := fst r\<rparr>"] by (simp add: settle_def)

lemma no_poll_handlers:
  "PollUpdateStatus x \<notin> set (snd (handleUpdatePlatform p u))"
  "PollUpdateStatus x \<notin> set (snd (handleSubmitUpdate_begin p u))"
  "PollUpdateStatus x \<notin> set (snd (closeUpdateModal u))"
  "PollUpdateStatus x \<notin> set (snd (copyToClipboard b v u))"
  "PollUpdateStatus x \<notin> set (snd (poll_resume r u))"
  by (auto simp: handleUpdatePlatform_def handleSubmitUpdate_begin_def closeUpdateModal_def
        copyToClipboard_def poll_resume_def split: sum.splits if_splits option.splits)

lemma resume_effects:
  "(\<exists>m v. snd (handleSubmitUpdate_resume r u) = [ShowNotification m v]) \<or>
   (\<exists>m v x. snd (handleSubmitUpdate_resume r u) = [ShowNotification m v, PollUpdateStatus x])"
  by (auto simp: handleSubmitUpdate_resume_def submit_caught_def
           split: sum.splits if_splits option.splits prod.splits)

lemma armed_start:
  assumes w: "wf s" and st: "step e s = Some s'" and n: "h \<notin> handles s" and m: "h \<in> handles s'"
  shows "h = next_handle s \<and> armed h (clock s + 300000) s'"
proof (cases e)
  case (SubmitSettled r)
  let ?r = "handleSubmitUpdate_resume r (ui s)"
  let ?s = "s\<lparr>submitting := submitting s - 1\<rparr>"
  from st SubmitSettled have s': "s' = settle None ?r ?s" by (auto split: if_splits)
  from resume_effects [of r "ui s"] show ?thesis
  proof (elim disjE exE)
    fix m' v assume "snd ?r = [ShowNotification m' v]"
    with s' n m show ?thesis by (simp add: settle_def)
  next
    fix m' v x assume "snd ?r = [ShowNotification m' v, PollUpdateStatus x]"
    with s' have s'': "s' = perform None (PollUpdateStatus x)
                              (record_effect None (ShowNotification m' v) (?s\<lparr>ui := fst ?r\<rparr>))"
      by (simp add: settle_def)
    let ?t = "record_effect None (ShowNotification m' v) (?s\<lparr>ui := fst ?r\<rparr>)"
    from s'' n m have h: "h = next_handle s"
      by (simp add: handles_perform del: perform.simps)
    from w have "wf ?t"
      using wf_perform [of "?s\<lparr>ui := fst ?r\<rparr>" None "ShowNotification m' v"] by simp
    from armed_poll_start [OF this, of x] have "armed (next_handle s) (clock s + 300000) s'"
      unfolding s'' by simp
    with h show ?thesis by simp
  qed
next
  case (IntervalFires k)
  with st n m show ?thesis
    by (auto simp: poll_fire_def split: option.splits if_splits)
next
  case (StatusSettled k r)
  with st n m show ?thesis
    using handles_settle_subset [OF allI [OF no_poll_handlers(5)]]
    by (fastforce split: if_splits)
next
  case (TimeoutFires due a)
  with st n m show ?thesis by (cases a) (auto split: if_splits)
next
  case (ClickUpdate p)
  with st n m show ?thesis
    using handles_settle_subset [OF allI [OF no_poll_handlers(1)]] by fastforce
next
  case (ClickSubmit p)
  with st n m show ?thesis
    using handles_settle_subset [OF allI [OF no_poll_handlers(2)]] by fastforce
next
  case ClickClose
  with st n m show ?thesis
    using handles_settle_subset [OF allI [OF no_poll_handlers(3)]] by fastforce
next
  case (ClickCopy b)
  with st n m show ?thesis
    using handles_settle_subset [OF allI [OF no_poll_handlers(4)]] by fastforce
qed (use st n m in \<open>auto split: if_splits\<close>)


subsection \<open>An interval that has fallen silent\<close>

lemma in_flight_perform:
  "in_flight (perform who e s) =
     (case e of
        FetchUpdateStatus x \<Rightarrow> (case who of Some k \<Rightarrow> k # in_flight s | None \<Rightarrow> in_flight s)
      | _ \<Rightarrow> in_flight s)"
  by (cases e; cases who) simp_all

lemma by_interval_perform:
  "who \<noteq> Some h \<Longrightarrow> by_interval h (perform who e s) = by_interval h s"
  by (cases e; cases who) (simp_all add: by_interval_def clear_interval_def)

lemma quiet_perform: "quiet h s \<Longrightarrow> who \<noteq> Some h \<Longrightarrow> quiet h (perform who e s)"
  by (auto simp: quiet_def gone_perform in_flight_perform split: effect.splits option.splits)

lemma quiet_fold:
  assumes "quiet h s" "who \<noteq> Some h"
  shows "quiet h (fold (perform who) es s) \<and> by_interval h (fold (perform who) es s) = by_interval h s"
  using assms
  by (intro fold_perform_inv [where P = "\<lambda>t. quiet h t \<and> by_interval h t = by_interval h s"])
     (auto simp: quiet_perform by_interval_perform)

lemma quiet_upd [simp]:
  "quiet h (s\<lparr>ui := u\<rparr>) = quiet h s"
  "quiet h (s\<lparr>clock := c\<rparr>) = quiet h s"
  "quiet h (s\<lparr>timeouts := ts\<rparr>) = quiet h s"
  "quiet h (s\<lparr>submitting := n\<rparr>) = quiet h s"
  "quiet h (s\<lparr>intervals := map (reschedule k) (intervals s)\<rparr>) = quiet h s"
  by (auto simp: quiet_def)

lemma quiet_clear: "quiet h s \<Longrightarrow> quiet h (clear_interval k s)"
  by (simp add: quiet_def gone_clear)

lemma by_interval_upd [simp]:
  "by_interval h (s\<lparr>ui := u\<rparr>) = by_interval h s"
  "by_interval h (s\<lparr>clock := c\<rparr>) = by_interval h s"
  "by_interval h (s\<lparr>timeouts := ts\<rparr>) = by_interval h s"
  "by_interval h (s\<lparr>submitting := n\<rparr>) = by_interval h s"
  "by_interval h (s\<lparr>in_flight := fl\<rparr>) = by_interval h s"
  "by_interval h (s\<lparr>intervals := is\<rparr>) = by_interval h s"
  "by_interval h (clear_interval k s) = by_interval h s"
  by (simp_all add: by_interval_def)

lemma quiet_settle:
  "quiet h s \<Longrightarrow> who \<noteq> Some h \<Longrightarrow>
   quiet h (settle who r s) \<and> by_interval h (settle who r s) = by_interval h s"
  using quiet_fold [of h "s\<lparr>ui := fst r\<rparr>" who "snd r"] by (simp add: settle_def)

lemma quiet_step:
  assumes q: "quiet h s" and st: "step e s = Some s'"
  shows "quiet h s' \<and> by_interval h s' = by_interval h s \<and>
         e \<noteq> IntervalFires h \<and> (\<forall>r. e \<noteq> StatusSettled h r)"
proof (cases e)
  case (IntervalFires k)
  with st obtain i where f: "find (\<lambda>i. fst i = k) (intervals s) = Some i"
    and s': "s' = perform (Some k) (FetchUpdateStatus (fst (snd i)))
                    (s\<lparr>intervals := map (reschedule k) (intervals s)\<rparr>)"
    by (auto simp: poll_fire_def split: option.splits if_splits)
  from f have "k \<in> handles s" by (simp add: handles_def find_handle)
  with q have kh: "k \<noteq> h" by (auto simp: quiet_def gone_def)
  with q have "quiet h s' \<and> by_interval h s' = by_interval h s"
    unfolding s' using quiet_perform [of h _ "Some k"] by_interval_perform [of "Some k" h]
    by (simp del: perform.simps)
  with kh IntervalFires show ?thesis by simp
next
  case (StatusSettled k r)
  with st have m: "k \<in> set (in_flight s)"
    and s': "s' = settle (Some k) (poll_resume r (ui s)) (s\<lparr>in_flight := remove1 k (in_flight s)\<rparr>)"
    by (auto split: if_splits)
  from m q have kh: "k \<noteq> h" by (auto simp: quiet_def)
  from q have "quiet h (s\<lparr>in_flight := remove1 k (in_flight s)\<rparr>)"
    by (auto simp: quiet_def gone_def dest: in_remove1)
  with kh have "quiet h s' \<and> by_interval h s' = by_interval h s"
    unfolding s' using quiet_settle [of h _ "Some k"] by simp
  with kh StatusSettled show ?thesis by simp
next
  case (TimeoutFires due a)
  with q st show ?thesis by (cases a) (auto simp: quiet_clear split: if_splits)
qed (use q st in \<open>auto simp: quiet_settle split: if_splits\<close>)

lemma quiet_run:
  "quiet h s \<Longrightarrow> run es s = Some s' \<Longrightarrow>
   quiet h s' \<and> by_interval h s' = by_interval h s \<and>
   (\<forall>e \<in> set es. e \<noteq> IntervalFires h \<and> (\<forall>r. e \<noteq> StatusSettled h r))"
proof (induction es arbitrary: s)
  case Nil
  then show ?case by simp
next
  case (Cons e es)
  then obtain s1 where s1: "step e s = Some s1" and r: "run es s1 = Some s'"
    by (auto split: option.splits)
  from quiet_step [OF Cons.prems(1) s1] Cons.IH [OF _ r] show ?case by auto
qed


section \<open>The sample run\<close>

text \<open>The sample inputs, evaluated.\<close>

lemma strip_sample: "strip_non_digits ''000.000.000-00'' = ''00000000000''"
  by (simp add: strip_non_digits_def is_digit_def)

lemma run_append:
  "run (es @ es') s = (case run es s of None \<Rightarrow> None | Some s' \<Rightarrow> run es' s')"
  by (induction es arbitrary: s) (auto split: option.splits)

lemma run_charging: "run charging boot = Some charging_sys"
  by (simp add: charging_def boot_def charging_sys_def initial_state_def form_state_def
        user_def currentUserId_def settle_def handleUpdatePlatform_def
        handleSubmitUpdate_begin_def sample_payer_def strip_non_digits_def is_digit_def
        record_effect_def)

lemma step_charged: "step (SubmitSettled charge_response) charging_sys = Some (ticking 0)"
  by (simp add: charging_sys_def charge_response_def ticking_def shown_state_def form_state_def
        settle_def handleSubmitUpdate_resume_def ok_def record_effect_def base_trace_def)

lemma reported_pending: "reported pending_response ''status'' = Some (JStr ''pending'')"
  by (simp add: reported_def pending_response_def ok_def)

lemma poll_resume_pending_response: "poll_resume pending_response u = (u, [])"
  by (simp add: poll_resume_def pending_response_def ok_def)

lemma run_tick: "n < 99 \<Longrightarrow> run tick (ticking n) = Some (ticking (Suc n))"
  by (simp add: tick_def ticking_def poll_fire_def record_effect_def reschedule_def
        poll_resume_pending_response settle_def)

lemma concat_replicate_Suc: "concat (replicate (Suc n) xs) = concat (replicate n xs) @ xs"
  by (induction n) simp_all

lemma run_ticks: "n \<le> 99 \<Longrightarrow> run (concat (replicate n tick)) (ticking 0) = Some (ticking n)"
proof (induction n)
  case 0
  show ?case by simp
next
  case (Suc n)
  then have "run (concat (replicate n tick)) (ticking 0) = Some (ticking n)" and "n < 99"
    by simp_all
  then show ?case
    by (simp only: concat_replicate_Suc run_append option.case run_tick)
qed

section \<open>More properties of the handlers\<close>

lemma wf_reachable: "run es boot = Some s \<Longrightarrow> wf s"
  using wf_run [OF wf_boot] .

lemma settle_terminal:
  "settle (Some h) (u, [ClearInterval, ShowNotification m v]) s =
     record_effect (Some h) (ShowNotification m v) (clear_interval h (s\<lparr>ui := u\<rparr>))"
  by (simp add: settle_def)

lemma not_terminal:
  "\<not> terminal (Inl e)"
  "\<not> ok resp \<Longrightarrow> \<not> terminal (Inr resp)"
  "body resp = None \<Longrightarrow> \<not> terminal (Inr resp)"
  "body resp = Some JNull \<Longrightarrow> \<not> terminal (Inr resp)"
  "reported r ''status'' = Some st \<Longrightarrow> st \<noteq> JStr ''completed'' \<Longrightarrow> st \<noteq> JStr ''failed'' \<Longrightarrow>
   \<not> terminal r"
  by (auto simp: terminal_def reported_def)

lemma stops_cases:
  "stops h e \<longleftrightarrow>
     (\<exists>due. e = TimeoutFires due (CancelInterval h)) \<or> (\<exists>r. e = StatusSettled h r \<and> terminal r)"
  by (cases e) (auto simp: stops_def)

subsection \<open>A charge request that fails\<close>

text \<open>
  What \<^verbatim>\<open>handleSubmitUpdate\<close> does with a call that threw, with a body that is not
  JSON, with HTTP 503, and with any other status that is not ok.  No failure stores
  a charge or starts a poll.
\<close>

lemma submit_thrown:
  "handleSubmitUpdate_resume (Inl e) u =
     (u\<lparr>isUpdating := False\<rparr>, [ShowNotification (T ''header.updateFailed'') SevError])"
  by (simp add: handleSubmitUpdate_resume_def submit_caught_def)

lemma submit_unparsed:
  "body resp = None \<Longrightarrow>
   handleSubmitUpdate_resume (Inr resp) u =
     (u\<lparr>isUpdating := False\<rparr>, [ShowNotification (T ''header.updateFailed'') SevError])"
  by (simp add: handleSubmitUpdate_resume_def submit_caught_def)

lemma submit_unavailable:
  "body resp = Some data \<Longrightarrow> status resp = 503 \<Longrightarrow>
   handleSubmitUpdate_resume (Inr resp) u =
     (u\<lparr>isUpdating := False\<rparr>, [ShowNotification (T ''wallet.pixNotConfigured'') SevInfo])"
  by (simp add: handleSubmitUpdate_resume_def)

lemma submit_rejected:
  assumes "body resp = Some data" "status resp \<noteq> 503" "\<not> ok resp"
  shows "handleSubmitUpdate_resume (Inr resp) u =
           (u\<lparr>isUpdating := False\<rparr>,
            [ShowNotification
               (case field data ''error'' of
                  Inr err \<Rightarrow> if truthy err then Raw err else T ''header.updateFailed''
                | Inl x \<Rightarrow> T ''header.updateFailed'')
               SevError])"
  using assms by (simp add: handleSubmitUpdate_resume_def submit_caught_def split: sum.splits)

lemma submit_failure_stores_nothing:
  assumes "case r of Inl e \<Rightarrow> True | Inr resp \<Rightarrow> \<not> ok resp"
  shows "fst (handleSubmitUpdate_resume r u) = u\<lparr>isUpdating := False\<rparr>"
    and "PollUpdateStatus x \<notin> set (snd (handleSubmitUpdate_resume r u))"
  using assms
  by (auto simp: handleSubmitUpdate_resume_def submit_caught_def
           split: sum.splits option.splits if_splits)

section \<open>The sample run, continued\<close>

lemma filter_concat_replicate:
  "filter P (concat (replicate n xs)) = concat (replicate n (filter P xs))"
  by (induction n) simp_all

lemma concat_replicate_Nil: "concat (replicate n []) = []"
  by (induction n) simp_all

lemma set_concat_replicate: "set (concat (replicate n xs)) \<subseteq> set xs"
  by (induction n) auto

lemma run_charged: "run [SubmitSettled charge_response] charging_sys = Some (ticking 0)"
  by (simp add: step_charged del: step.simps)

lemma run_first_tick: "run [Elapse 3000, IntervalFires 0] (ticking 0) = Some polling_sys"
  by (simp add: ticking_def polling_sys_def poll_fire_def record_effect_def reschedule_def)

lemma run_first_call: "run first_call boot = Some polling_sys"
  by (simp only: first_call_def run_append run_charging run_charged run_first_tick option.case)

lemma reported_completed: "reported completed_response ''status'' = Some (JStr ''completed'')"
  by (simp add: reported_def completed_response_def ok_def)

lemma step_done: "step (StatusSettled 0 completed_response) polling_sys = Some done_sys"
  by (simp add: poll_resume_completed [OF reported_completed] settle_terminal)
     (simp add: polling_sys_def done_sys_def record_effect_def clear_interval_def)

lemma run_after_done: "run [Elapse 297000] done_sys = Some (done_sys\<lparr>clock := 300000\<rparr>)"
  by (simp add: done_sys_def)

lemma in_flight_polling: "0 \<in> set (in_flight polling_sys)"
  by (simp add: polling_sys_def)

lemma ui_polling: "ui polling_sys = shown_state"
  by (simp add: polling_sys_def)

lemma reported_failed:
  "reported failed_response ''status'' = Some (JStr ''failed'')"
  "reported failed_response ''errorMessage'' = Some (JStr ''X'')"
  "reported failed_plain_response ''status'' = Some (JStr ''failed'')"
  "reported failed_plain_response ''errorMessage'' = Some JUndefined"
  by (simp_all add: reported_def failed_response_def failed_plain_response_def ok_def)

lemma step_failed: "step (StatusSettled 0 failed_response) polling_sys = Some failed_sys"
  by (simp add: poll_resume_failed [OF reported_failed(1,2)] settle_terminal)
     (simp add: polling_sys_def failed_sys_def record_effect_def clear_interval_def)

lemma step_pending: "step (StatusSettled 0 pending_response) polling_sys = Some (ticking 1)"
  by (simp add: poll_resume_pending_response settle_def)
     (simp add: polling_sys_def ticking_def)

lemma user_present: "currentUserId user \<noteq> []"
  by (simp add: currentUserId_def user_def)

lemma nobody_absent: "currentUserId nobody = []"
  by (simp add: currentUserId_def nobody_def)

lemma run_cutoff: "run cutoff_run (ticking 0) = Some at_cutoff"
  by (simp add: cutoff_run_def run_append run_ticks) (simp add: ticking_def at_cutoff_def)

lemma step_expire: "step (TimeoutFires 300000 (CancelInterval 0)) at_cutoff = Some expired_sys"
  by (simp add: at_cutoff_def expired_sys_def ticking_def clear_interval_def)

lemma run_expired: "run [Elapse 500] expired_sys = Some (expired_sys\<lparr>clock := 300500\<rparr>)"
  by (simp add: expired_sys_def)

lemma run_late: "run late_run (ticking 0) = Some late_sys"
  by (simp add: late_run_def run_append run_ticks)
     (simp add: ticking_def late_sys_def poll_fire_def record_effect_def reschedule_def
        clear_interval_def)

lemma step_late: "step (StatusSettled 0 completed_response) late_sys = Some late_done"
  by (simp add: poll_resume_completed [OF reported_completed] settle_terminal)
     (simp add: late_sys_def late_done_def record_effect_def clear_interval_def)

lemma stops_tick: "filter (stops 0) tick = []"
  using not_terminal(5) [OF reported_pending]
  by (simp add: tick_def stops_def)

lemma status_calls_ticking:
  "status_calls 0 (ticking n) = map (\<lambda>k. 3000 * k + 3000) [0..<n]"
  by (simp add: status_calls_def ticking_def base_trace_def filter_map o_def)

lemma cutoff_run_events:
  "e \<in> set cutoff_run \<Longrightarrow>
   e = Elapse 3000 \<or> e = IntervalFires 0 \<or> e = StatusSettled 0 pending_response"
  using set_concat_replicate [of 99 tick] by (auto simp: cutoff_run_def tick_def)

lemma at_cutoff_facts:
  "0 \<in> handles at_cutoff" "clock at_cutoff = 300000"
  "297000 \<in> set (status_calls 0 at_cutoff)"
  by (simp_all add: at_cutoff_def status_calls_ticking image_iff)
     (simp_all add: ticking_def handles_def)

lemma expired_facts:
  "0 \<notin> handles expired_sys" "0 \<notin> set (in_flight expired_sys)"
  "ui expired_sys = ui at_cutoff" "trace expired_sys = trace at_cutoff"
  by (simp_all add: expired_sys_def at_cutoff_def ticking_def handles_def)

lemma run_to_expiry:
  "run (cutoff_run @ [TimeoutFires 300000 (CancelInterval 0)]) (ticking 0) = Some expired_sys"
  by (simp add: run_append run_cutoff step_expire del: step.simps)

lemma run_closed_polling:
  "run [ClickClose, Elapse 3000, IntervalFires 0] polling_sys = Some closed_polling_sys"
  by (simp add: polling_sys_def closed_polling_sys_def closeUpdateModal_def settle_def
        shown_state_def form_state_def poll_fire_def record_effect_def reschedule_def)

section \<open>The claims\<close>

subsection \<open>C1: a completed status\<close>

text \<open>
  C1.  When a status call of the poll settles with a response that is ok and whose
  body reports the status \<^verbatim>\<open>completed\<close>, the callback cancels its interval and
  surfaces the success notice \<^verbatim>\<open>header.updateCompleted\<close>; it closes the modal, sets
  the four charge cells (code, image, transaction id, expiry) to null, and empties
  the payer's email, first name, last name and identification number (the
  identification type is a choice between two values and is kept).  In every state
  the component can reach, the step takes the interval away, and the state is
  terminal for the transaction: whatever happens afterwards, the interval does not
  come back and issues no further status call.
\<close>

theorem poll_completed:
  assumes "reported r ''status'' = Some (JStr ''completed'')"
  shows "poll_resume r u =
           (u\<lparr>showUpdateModal := False,
              updateQrCode := JNull, updateQrCodeBase64 := JNull,
              updateTransactionId := JNull, updateExpiresAt := JNull,
              payerEmail := [], payerFirstName := [], payerLastName := [],
              payerIdentificationNumber := []\<rparr>,
            [ClearInterval, ShowNotification (T ''header.updateCompleted'') SevSuccess])
       \<and> (run es0 boot = Some s \<and> h \<in> set (in_flight s) \<longrightarrow>
            (\<exists>s'. step (StatusSettled h r) s = Some s'
               \<and> ui s' = fst (poll_resume r (ui s))
               \<and> trace s' = trace s @
                    [(clock s, Some h, ShowNotification (T ''header.updateCompleted'') SevSuccess)]
               \<and> h \<notin> handles s'
               \<and> (run es s' = Some s'' \<longrightarrow>
                    h \<notin> handles s'' \<and> status_calls h s'' = status_calls h s')))"
proof (intro conjI impI)
  have p: "\<And>u. poll_resume r u =
           (u\<lparr>showUpdateModal := False,
              updateQrCode := JNull, updateQrCodeBase64 := JNull,
              updateTransactionId := JNull, updateExpiresAt := JNull,
              payerEmail := [], payerFirstName := [], payerLastName := [],
              payerIdentificationNumber := []\<rparr>,
            [ClearInterval, ShowNotification (T ''header.updateCompleted'') SevSuccess])"
    using assms by (rule poll_resume_completed)
  show "poll_resume r u =
           (u\<lparr>showUpdateModal := False,
              updateQrCode := JNull, updateQrCodeBase64 := JNull,
              updateTransactionId := JNull, updateExpiresAt := JNull,
              payerEmail := [], payerFirstName := [], payerLastName := [],
              payerIdentificationNumber := []\<rparr>,
            [ClearInterval, ShowNotification (T ''header.updateCompleted'') SevSuccess])"
    by (rule p)
  assume a: "run es0 boot = Some s \<and> h \<in> set (in_flight s)"
  then have w: "wf s" by (blast intro: wf_reachable)
  with a have k: "h < next_handle s" by (simp add: wf_def)
  let ?s' = "settle (Some h) (poll_resume r (ui s)) (s\<lparr>in_flight := remove1 h (in_flight s)\<rparr>)"
  have st: "step (StatusSettled h r) s = Some ?s'" using a by simp
  have g: "gone h ?s'" using k by (simp add: p settle_terminal gone_def)
  have "ui ?s' = fst (poll_resume r (ui s))" by (simp add: p settle_terminal)
  moreover have "trace ?s' = trace s @
       [(clock s, Some h, ShowNotification (T ''header.updateCompleted'') SevSuccess)]"
    by (simp add: p settle_terminal)
  moreover have "h \<notin> handles ?s'" using g by (simp add: gone_def)
  moreover have "run es ?s' = Some s'' \<longrightarrow>
                   h \<notin> handles s'' \<and> status_calls h s'' = status_calls h ?s'"
    using gone_run [OF g] by (auto simp: gone_def)
  ultimately show "\<exists>s'. step (StatusSettled h r) s = Some s'
               \<and> ui s' = fst (poll_resume r (ui s))
               \<and> trace s' = trace s @
                    [(clock s, Some h, ShowNotification (T ''header.updateCompleted'') SevSuccess)]
               \<and> h \<notin> handles s'
               \<and> (run es s' = Some s'' \<longrightarrow>
                    h \<notin> handles s'' \<and> status_calls h s'' = status_calls h s')"
    using st by blast
qed

theorem poll_completed_witness:
  "reported completed_response ''status'' = Some (JStr ''completed'')
   \<and> run first_call boot = Some polling_sys \<and> 0 \<in> set (in_flight polling_sys)
   \<and> step (StatusSettled 0 completed_response) polling_sys = Some done_sys
   \<and> ui done_sys = fst (poll_resume completed_response shown_state)
   \<and> 0 \<notin> handles done_sys
   \<and> run [Elapse 297000] done_sys = Some (done_sys\<lparr>clock := 300000\<rparr>)
   \<and> 0 \<notin> handles (done_sys\<lparr>clock := 300000\<rparr>)
   \<and> status_calls 0 (done_sys\<lparr>clock := 300000\<rparr>) = status_calls 0 done_sys"
proof -
  have i: "0 \<in> set (in_flight polling_sys)" by (simp add: polling_sys_def)
  have u: "ui polling_sys = shown_state" by (simp add: polling_sys_def)
  from poll_completed [OF reported_completed, of shown_state first_call polling_sys 0
      "[Elapse 297000]" "done_sys\<lparr>clock := 300000\<rparr>"]
  have "\<exists>s'. step (StatusSettled 0 completed_response) polling_sys = Some s'
          \<and> ui s' = fst (poll_resume completed_response (ui polling_sys))
          \<and> 0 \<notin> handles s'
          \<and> (run [Elapse 297000] s' = Some (done_sys\<lparr>clock := 300000\<rparr>) \<longrightarrow>
                0 \<notin> handles (done_sys\<lparr>clock := 300000\<rparr>)
              \<and> status_calls 0 (done_sys\<lparr>clock := 300000\<rparr>) = status_calls 0 s')"
    using run_first_call i by blast
  then show ?thesis
    using reported_completed run_first_call i step_done run_after_done u by auto
qed

subsection \<open>C2: a failed status\<close>

text \<open>
  C2.  When a status call of the poll settles with a response that is ok and whose
  body reports the status \<^verbatim>\<open>failed\<close>, the callback cancels its interval, closes
  the modal and sets the four charge cells to null; every other cell, the payer's
  among them, keeps its value.  It surfaces one notice, of error severity: the
  body's \<^verbatim>\<open>errorMessage\<close> when that is truthy (a message \<^verbatim>\<open>"X"\<close> gives the text
  \<^verbatim>\<open>"X"\<close>), and the generic \<^verbatim>\<open>header.updateFailed\<close> otherwise (no message, null, or
  the empty string).  In a state of the component the step takes the interval away.
\<close>

theorem poll_failed:
  assumes "reported r ''status'' = Some (JStr ''failed'')"
  shows "(\<exists>em. reported r ''errorMessage'' = Some em \<and>
            poll_resume r u =
              (u\<lparr>showUpdateModal := False,
                 updateQrCode := JNull, updateQrCodeBase64 := JNull,
                 updateTransactionId := JNull, updateExpiresAt := JNull\<rparr>,
               [ClearInterval,
                ShowNotification (if truthy em then Raw em else T ''header.updateFailed'')
                  SevError]))
       \<and> (reported r ''errorMessage'' = Some (JStr x) \<and> x \<noteq> [] \<longrightarrow>
            snd (poll_resume r u) = [ClearInterval, ShowNotification (Raw (JStr x)) SevError])
       \<and> (reported r ''errorMessage'' = Some JUndefined \<longrightarrow>
            snd (poll_resume r u) =
              [ClearInterval, ShowNotification (T ''header.updateFailed'') SevError])
       \<and> (h \<in> set (in_flight s) \<longrightarrow>
            (\<exists>s'. step (StatusSettled h r) s = Some s'
               \<and> ui s' = fst (poll_resume r (ui s))
               \<and> h \<notin> handles s'))"
proof -
  from reported_both [OF assms, of "''errorMessage''"]
  obtain em where em: "reported r ''errorMessage'' = Some em" by blast
  note p = poll_resume_failed [OF assms em]
  have "h \<in> set (in_flight s) \<longrightarrow>
            (\<exists>s'. step (StatusSettled h r) s = Some s'
               \<and> ui s' = fst (poll_resume r (ui s))
               \<and> h \<notin> handles s')"
    by (simp add: p settle_terminal)
  with em p show ?thesis by auto
qed

theorem poll_failed_witness:
  "reported failed_response ''status'' = Some (JStr ''failed'')
   \<and> reported failed_response ''errorMessage'' = Some (JStr ''X'')
   \<and> snd (poll_resume failed_response shown_state) =
        [ClearInterval, ShowNotification (Raw (JStr ''X'')) SevError]
   \<and> reported failed_plain_response ''status'' = Some (JStr ''failed'')
   \<and> reported failed_plain_response ''errorMessage'' = Some JUndefined
   \<and> snd (poll_resume failed_plain_response shown_state) =
        [ClearInterval, ShowNotification (T ''header.updateFailed'') SevError]
   \<and> 0 \<in> set (in_flight polling_sys)
   \<and> step (StatusSettled 0 failed_response) polling_sys = Some failed_sys
   \<and> ui failed_sys = fst (poll_resume failed_response shown_state)
   \<and> 0 \<notin> handles failed_sys"
proof -
  have a: "snd (poll_resume failed_response shown_state) =
             [ClearInterval, ShowNotification (Raw (JStr ''X'')) SevError]"
    using poll_failed [OF reported_failed(1), of shown_state "''X''"] reported_failed(2)
    by simp
  have b: "snd (poll_resume failed_plain_response shown_state) =
             [ClearInterval, ShowNotification (T ''header.updateFailed'') SevError]"
    using poll_failed [OF reported_failed(3), of shown_state] reported_failed(4)
    by simp
  have "\<exists>s'. step (StatusSettled 0 failed_response) polling_sys = Some s'
           \<and> ui s' = fst (poll_resume failed_response (ui polling_sys))
           \<and> 0 \<notin> handles s'"
    using poll_failed [OF reported_failed(1), of shown_state _ 0 polling_sys] in_flight_polling
    by blast
  then have c: "ui failed_sys = fst (poll_resume failed_response shown_state)
                 \<and> 0 \<notin> handles failed_sys"
    using step_failed ui_polling by auto
  from a b c show ?thesis
    using reported_failed in_flight_polling step_failed by simp
qed

subsection \<open>C3: closing the modal while a code is shown\<close>

text \<open>
  C3.  In every state in which a payment code is shown (\<^verbatim>\<open>updateQrCode\<close> is truthy,
  the test the close button itself makes), closing the modal hides it and sets the
  four charge cells to null, and that is all: every interval and every timeout is
  kept.  The poll goes on after the close: whatever happens next, an interval that
  was there before the close is still there, as long as neither the timeout that
  clears it has fired (the five-minute ceiling, see C8) nor one of its own status
  calls has settled with a terminal status.  And in every state whatever, with or
  without a code shown, those two are the only events that take an interval away.
\<close>

theorem close_keeps_polling:
  assumes "truthy (updateQrCode (ui s))"
  shows "step ClickClose s =
           Some (s\<lparr>ui := (ui s)\<lparr>showUpdateModal := False,
                          updateQrCode := JNull, updateQrCodeBase64 := JNull,
                          updateTransactionId := JNull, updateExpiresAt := JNull\<rparr>\<rparr>)
       \<and> (\<exists>s1. step ClickClose s = Some s1 \<and> intervals s1 = intervals s
               \<and> timeouts s1 = timeouts s \<and> in_flight s1 = in_flight s
               \<and> clock s1 = clock s \<and> trace s1 = trace s)
       \<and> (run (ClickClose # es) s = Some s' \<and> h \<in> handles s
            \<and> (\<forall>e \<in> set es. (\<forall>due. e \<noteq> TimeoutFires due (CancelInterval h))
                           \<and> (\<forall>r. e = StatusSettled h r \<longrightarrow> \<not> terminal r)) \<longrightarrow>
            h \<in> handles s')
       \<and> (step e t = Some t' \<and> k \<in> handles t \<and> k \<notin> handles t' \<longrightarrow>
            (\<exists>due. e = TimeoutFires due (CancelInterval k)) \<or>
            (\<exists>r. e = StatusSettled k r \<and> terminal r))"
proof -
  let ?s1 = "s\<lparr>ui := (ui s)\<lparr>showUpdateModal := False,
                          updateQrCode := JNull, updateQrCodeBase64 := JNull,
                          updateTransactionId := JNull, updateExpiresAt := JNull\<rparr>\<rparr>"
  have c: "step ClickClose s = Some ?s1"
    using assms by (simp add: closeUpdateModal_def settle_def)
  have r: "run (ClickClose # es) s = Some s' \<and> h \<in> handles s
            \<and> (\<forall>e \<in> set es. (\<forall>due. e \<noteq> TimeoutFires due (CancelInterval h))
                           \<and> (\<forall>r. e = StatusSettled h r \<longrightarrow> \<not> terminal r)) \<longrightarrow>
            h \<in> handles s'"
  proof
    assume a: "run (ClickClose # es) s = Some s' \<and> h \<in> handles s
            \<and> (\<forall>e \<in> set es. (\<forall>due. e \<noteq> TimeoutFires due (CancelInterval h))
                           \<and> (\<forall>r. e = StatusSettled h r \<longrightarrow> \<not> terminal r))"
    then have "run es ?s1 = Some s'" using c by (simp del: step.simps)
    moreover from a have "h \<in> handles ?s1" by simp
    moreover from a have "\<forall>e \<in> set es. \<not> stops h e" by (auto simp: stops_cases)
    ultimately show "h \<in> handles s'" by (rule run_keeps)
  qed
  have x: "step e t = Some t' \<and> k \<in> handles t \<and> k \<notin> handles t' \<longrightarrow>
            (\<exists>due. e = TimeoutFires due (CancelInterval k)) \<or>
            (\<exists>r. e = StatusSettled k r \<and> terminal r)"
    using step_stops [of e t t' k] by (simp only: stops_cases) blast
  from c r x show ?thesis by simp
qed

theorem close_keeps_polling_witness:
  "truthy (updateQrCode (ui polling_sys))
   \<and> step ClickClose polling_sys =
        Some (polling_sys\<lparr>ui := shown_state\<lparr>showUpdateModal := False,
                          updateQrCode := JNull, updateQrCodeBase64 := JNull,
                          updateTransactionId := JNull, updateExpiresAt := JNull\<rparr>\<rparr>)
   \<and> run [ClickClose, Elapse 3000, IntervalFires 0] polling_sys = Some closed_polling_sys
   \<and> 0 \<in> handles polling_sys
   \<and> \<not> truthy (updateQrCode (ui closed_polling_sys))
   \<and> 0 \<in> handles closed_polling_sys
   \<and> step (StatusSettled 0 completed_response) polling_sys = Some done_sys
   \<and> 0 \<notin> handles done_sys
   \<and> terminal completed_response"
proof -
  have t: "truthy (updateQrCode (ui polling_sys))"
    by (simp add: polling_sys_def shown_state_def)
  have h: "0 \<in> handles polling_sys" "0 \<notin> handles done_sys"
    by (simp_all add: handles_def polling_sys_def done_sys_def)
  have n: "\<not> truthy (updateQrCode (ui closed_polling_sys))"
    by (simp add: closed_polling_sys_def)
  have e: "\<forall>e \<in> set [Elapse 3000, IntervalFires 0].
             (\<forall>due. e \<noteq> TimeoutFires due (CancelInterval 0))
             \<and> (\<forall>r. e = StatusSettled 0 r \<longrightarrow> \<not> terminal r)"
    by simp
  note A = close_keeps_polling [OF t, of "[Elapse 3000, IntervalFires 0]" closed_polling_sys 0
      "StatusSettled 0 completed_response" polling_sys done_sys 0]
  from A have a: "step ClickClose polling_sys =
        Some (polling_sys\<lparr>ui := shown_state\<lparr>showUpdateModal := False,
                          updateQrCode := JNull, updateQrCodeBase64 := JNull,
                          updateTransactionId := JNull, updateExpiresAt := JNull\<rparr>\<rparr>)"
    using ui_polling by simp
  from A run_closed_polling h(1) e have b: "0 \<in> handles closed_polling_sys" by blast
  from A step_done h have c: "terminal completed_response" by auto
  from t a b c n h show ?thesis using run_closed_polling step_done by simp
qed

subsection \<open>C4: the identification number\<close>

text \<open>
  C4, as stated, asks that an identification number without any digit be refused.
  The check of line 105 is made on the number as typed, before the digits are
  picked out of it in line 122: the number \<^verbatim>\<open>"abc"\<close> passes the check, and the
  request goes out with the empty string for a number.
\<close>

theorem submit_digitless_counterexample:
  "strip_non_digits (payerIdentificationNumber letters_state) = []
   \<and> handleSubmitUpdate_begin user letters_state =
       (letters_state\<lparr>isUpdating := True\<rparr>,
        [FetchUpdateRequest
           \<lparr> email = ''ana@example.com'', firstName = ''Ana'', lastName = ''Silva'',
             identification = \<lparr> ident_type = ''CPF'', ident_number = [] \<rparr> \<rparr>])"
  by (simp add: handleSubmitUpdate_begin_def letters_state_def form_state_def user_present
        strip_non_digits_def is_digit_def)

text \<open>
  C4, amended.  Every charge request \<^verbatim>\<open>handleSubmitUpdate\<close> sends carries the
  identification number with every character other than 0..9 dropped, the rest in
  order: \<^verbatim>\<open>"000.000.000-00"\<close> is sent as \<^verbatim>\<open>"00000000000"\<close>.  The number is required
  to be non-empty as typed: when it is the empty string nothing is sent, no state
  changes and, with a user logged in, an error notice names the payer information
  or the identification.  With a user logged in and the four fields non-empty,
  exactly one request is sent, whatever the number holds.
\<close>

theorem submit_normalizes:
  "(FetchUpdateRequest q \<in> set (snd (handleSubmitUpdate_begin p u)) \<longrightarrow>
      ident_number (identification q) = strip_non_digits (payerIdentificationNumber u))
   \<and> strip_non_digits x = filter (\<lambda>c. c \<in> set ''0123456789'') x
   \<and> strip_non_digits ''000.000.000-00'' = ''00000000000''
   \<and> (payerIdentificationNumber u = [] \<longrightarrow>
        fst (handleSubmitUpdate_begin p u) = u
        \<and> FetchUpdateRequest q \<notin> set (snd (handleSubmitUpdate_begin p u))
        \<and> (currentUserId p \<noteq> [] \<longrightarrow>
             snd (handleSubmitUpdate_begin p u) =
               [ShowNotification (T ''wallet.fillPayerInfo'') SevError] \<or>
             snd (handleSubmitUpdate_begin p u) =
               [ShowNotification (T ''wallet.enterIdentification'') SevError]))
   \<and> (currentUserId p \<noteq> [] \<and> payerEmail u \<noteq> [] \<and> payerFirstName u \<noteq> []
        \<and> payerLastName u \<noteq> [] \<and> payerIdentificationNumber u \<noteq> [] \<longrightarrow>
        handleSubmitUpdate_begin p u =
          (u\<lparr>isUpdating := True\<rparr>,
           [FetchUpdateRequest
              \<lparr> email = payerEmail u, firstName = payerFirstName u,
                lastName = payerLastName u,
                identification =
                  \<lparr> ident_type = payerIdentificationType u,
                    ident_number = strip_non_digits (payerIdentificationNumber u) \<rparr> \<rparr>]))"
proof -
  have "strip_non_digits x = filter (\<lambda>c. c \<in> set ''0123456789'') x"
    by (simp add: strip_non_digits_def is_digit_def [abs_def])
  then show ?thesis
    by (auto simp: handleSubmitUpdate_begin_def strip_sample)
qed

theorem submit_normalizes_witness:
  "handleSubmitUpdate_begin user form_state =
     (form_state\<lparr>isUpdating := True\<rparr>, [FetchUpdateRequest sample_payer])
   \<and> FetchUpdateRequest sample_payer \<in> set (snd (handleSubmitUpdate_begin user form_state))
   \<and> ident_number (identification sample_payer) = ''00000000000''
   \<and> payerIdentificationNumber form_state = ''000.000.000-00''
   \<and> payerIdentificationNumber no_number_state = []
   \<and> currentUserId user \<noteq> []
   \<and> handleSubmitUpdate_begin user no_number_state =
        (no_number_state, [ShowNotification (T ''wallet.enterIdentification'') SevError])"
proof -
  have f: "payerEmail form_state \<noteq> []" "payerFirstName form_state \<noteq> []"
    "payerLastName form_state \<noteq> []" "payerIdentificationNumber form_state \<noteq> []"
    "payerIdentificationNumber form_state = ''000.000.000-00''"
    by (simp_all add: form_state_def)
  have a: "handleSubmitUpdate_begin user form_state =
     (form_state\<lparr>isUpdating := True\<rparr>, [FetchUpdateRequest sample_payer])"
    using submit_normalizes [of _ user form_state] user_present f
    by (simp add: form_state_def sample_payer_def)
  then have b: "FetchUpdateRequest sample_payer \<in> set (snd (handleSubmitUpdate_begin user form_state))"
    by simp
  with submit_normalizes [of sample_payer user form_state] f
  have c: "ident_number (identification sample_payer) = ''00000000000''" by metis
  have n: "payerIdentificationNumber no_number_state = []"
    by (simp add: no_number_state_def)
  with submit_normalizes [of sample_payer user no_number_state] user_present
  have "fst (handleSubmitUpdate_begin user no_number_state) = no_number_state"
    and "snd (handleSubmitUpdate_begin user no_number_state) =
               [ShowNotification (T ''wallet.fillPayerInfo'') SevError] \<or>
         snd (handleSubmitUpdate_begin user no_number_state) =
               [ShowNotification (T ''wallet.enterIdentification'') SevError]"
    by blast+
  moreover have "snd (handleSubmitUpdate_begin user no_number_state) \<noteq>
               [ShowNotification (T ''wallet.fillPayerInfo'') SevError]"
    by (simp add: handleSubmitUpdate_begin_def user_present no_number_state_def form_state_def)
  ultimately have d: "handleSubmitUpdate_begin user no_number_state =
        (no_number_state, [ShowNotification (T ''wallet.enterIdentification'') SevError])"
    by (metis prod.collapse)
  from a b c d n f(5) user_present show ?thesis by simp
qed

subsection \<open>C5: a charge request that fails\<close>

text \<open>
  C5.  \<^verbatim>\<open>handleSubmitUpdate\<close> parses the body (line 128) before it looks at the
  status (line 130).  For a body that parses, the three branches are as C5 says
  (\<open>submit_unavailable\<close>, \<open>submit_rejected\<close>, \<open>submit_thrown\<close>), and no failure
  stores a charge or starts a poll (\<open>submit_failure_stores_nothing\<close>).  A 503
  whose body is not JSON never reaches the test of the status: parsing throws, and
  the notice is the generic failure, of error severity, not the informational one.
\<close>

theorem unparsed_503_is_generic_failure:
  "handleSubmitUpdate_resume html_503 u =
     (u\<lparr>isUpdating := False\<rparr>, [ShowNotification (T ''header.updateFailed'') SevError])"
  by (simp add: html_503_def submit_unparsed)

subsection \<open>C6: empty payer fields\<close>

text \<open>
  C6, as stated, promises a validation notice for every payer with an empty field.
  \<^verbatim>\<open>handleSubmitUpdate\<close> first asks for the user identity (lines 94 to 97): with
  nobody logged in, the notice is the login notice \<^verbatim>\<open>header.updateLoginRequired\<close>,
  whatever the payer fields hold.
\<close>

theorem submit_unauthenticated_counterexample:
  "payerEmail initial_state = []
   \<and> handleSubmitUpdate_begin nobody initial_state =
       (initial_state, [ShowNotification (T ''header.updateLoginRequired'') SevError])"
  by (simp add: handleSubmitUpdate_begin_def nobody_absent) (simp add: initial_state_def)

text \<open>
  C6, amended.  For every payer with an empty email, first name, last name or
  identification number, \<^verbatim>\<open>handleSubmitUpdate\<close> sends no request and changes no
  state (the backend's answer plays no part).  With a user logged in it surfaces a
  validation notice of error severity: \<^verbatim>\<open>wallet.fillPayerInfo\<close> for an empty email or
  name, \<^verbatim>\<open>wallet.enterIdentification\<close> otherwise.  With nobody logged in it
  surfaces the login notice instead.
\<close>

theorem submit_requires_fields:
  assumes "payerEmail u = [] \<or> payerFirstName u = [] \<or> payerLastName u = []
           \<or> payerIdentificationNumber u = []"
  shows "fst (handleSubmitUpdate_begin p u) = u
       \<and> FetchUpdateRequest q \<notin> set (snd (handleSubmitUpdate_begin p u))
       \<and> handleSubmitUpdate p r u = handleSubmitUpdate_begin p u
       \<and> (currentUserId p \<noteq> [] \<longrightarrow>
            snd (handleSubmitUpdate_begin p u) =
              [ShowNotification
                 (T (if payerEmail u = [] \<or> payerFirstName u = [] \<or> payerLastName u = []
                     then ''wallet.fillPayerInfo'' else ''wallet.enterIdentification''))
                 SevError])
       \<and> (currentUserId p = [] \<longrightarrow>
            snd (handleSubmitUpdate_begin p u) =
              [ShowNotification (T ''header.updateLoginRequired'') SevError])"
  using assms by (auto simp: handleSubmitUpdate_begin_def handleSubmitUpdate_def)

theorem submit_requires_fields_witness:
  "payerIdentificationNumber no_number_state = []
   \<and> currentUserId user \<noteq> []
   \<and> handleSubmitUpdate_begin user no_number_state =
        (no_number_state, [ShowNotification (T ''wallet.enterIdentification'') SevError])
   \<and> handleSubmitUpdate user charge_response no_number_state =
        (no_number_state, [ShowNotification (T ''wallet.enterIdentification'') SevError])
   \<and> payerEmail initial_state = []
   \<and> handleSubmitUpdate_begin user initial_state =
        (initial_state, [ShowNotification (T ''wallet.fillPayerInfo'') SevError])
   \<and> currentUserId nobody = []
   \<and> handleSubmitUpdate_begin nobody initial_state =
        (initial_state, [ShowNotification (T ''header.updateLoginRequired'') SevError])"
proof -
  have n: "payerIdentificationNumber no_number_state = []" "payerEmail no_number_state \<noteq> []"
    "payerFirstName no_number_state \<noteq> []" "payerLastName no_number_state \<noteq> []"
    by (simp_all add: no_number_state_def form_state_def)
  have e: "payerEmail initial_state = []" by (simp add: initial_state_def)
  from n(1) have h1: "payerEmail no_number_state = [] \<or> payerFirstName no_number_state = []
     \<or> payerLastName no_number_state = [] \<or> payerIdentificationNumber no_number_state = []"
    by simp
  from e have h2: "payerEmail initial_state = [] \<or> payerFirstName initial_state = []
     \<or> payerLastName initial_state = [] \<or> payerIdentificationNumber initial_state = []"
    by simp
  from submit_requires_fields [OF h1, of user _ charge_response] user_present n
  have a: "handleSubmitUpdate_begin user no_number_state =
        (no_number_state, [ShowNotification (T ''wallet.enterIdentification'') SevError])"
    and b: "handleSubmitUpdate user charge_response no_number_state =
        handleSubmitUpdate_begin user no_number_state"
    by (simp_all add: prod_eq_iff)
  from submit_requires_fields [OF h2, of user] user_present e
  have c: "handleSubmitUpdate_begin user initial_state =
        (initial_state, [ShowNotification (T ''wallet.fillPayerInfo'') SevError])"
    by (simp add: prod_eq_iff)
  from submit_requires_fields [OF h2, of nobody] nobody_absent
  have d: "handleSubmitUpdate_begin nobody initial_state =
        (initial_state, [ShowNotification (T ''header.updateLoginRequired'') SevError])"
    by (simp add: prod_eq_iff)
  from a b c d n(1) e user_present nobody_absent show ?thesis by simp
qed

subsection \<open>C7: any other answer\<close>

text \<open>
  C7.  A status call that does not settle with a terminal status leaves everything
  as it is.  That covers a response that is not ok, whatever its body says; an ok
  response whose body is not JSON, is null, has no status, or has a status other
  than \<^verbatim>\<open>completed\<close> and \<^verbatim>\<open>failed\<close>; and a call that threw.  The callback changes
  no cell of the state and surfaces no notice: at most it writes to the console.
  In a state of the component the step keeps every interval and every timeout, so
  the poll goes on.
\<close>

theorem poll_not_terminal:
  assumes "\<not> terminal r"
  shows "(poll_resume r u = (u, []) \<or> poll_resume r u = (u, [ConsoleError]))
       \<and> (h \<in> set (in_flight s) \<longrightarrow>
            (\<exists>s'. step (StatusSettled h r) s = Some s'
               \<and> ui s' = ui s \<and> intervals s' = intervals s \<and> timeouts s' = timeouts s
               \<and> (trace s' = trace s \<or> trace s' = trace s @ [(clock s, Some h, ConsoleError)])))"
proof -
  from poll_resume_pending [OF assms]
  have p: "poll_resume r (ui s) = (ui s, []) \<or> poll_resume r (ui s) = (ui s, [ConsoleError])"
    and q: "poll_resume r u = (u, []) \<or> poll_resume r u = (u, [ConsoleError])"
    by blast+
  from p have "h \<in> set (in_flight s) \<longrightarrow>
            (\<exists>s'. step (StatusSettled h r) s = Some s'
               \<and> ui s' = ui s \<and> intervals s' = intervals s \<and> timeouts s' = timeouts s
               \<and> (trace s' = trace s \<or> trace s' = trace s @ [(clock s, Some h, ConsoleError)]))"
    by (auto simp: settle_def)
  with q show ?thesis by blast
qed

theorem poll_not_terminal_witness:
  "\<not> terminal pending_response \<and> \<not> terminal error_response
   \<and> \<not> terminal malformed_response \<and> \<not> terminal (Inl NetworkError)
   \<and> poll_resume pending_response shown_state = (shown_state, [])
   \<and> poll_resume error_response shown_state = (shown_state, [])
   \<and> poll_resume malformed_response shown_state = (shown_state, [ConsoleError])
   \<and> poll_resume (Inl NetworkError) shown_state = (shown_state, [ConsoleError])
   \<and> 0 \<in> set (in_flight polling_sys)
   \<and> step (StatusSettled 0 pending_response) polling_sys = Some (ticking 1)
   \<and> ui (ticking 1) = ui polling_sys \<and> intervals (ticking 1) = intervals polling_sys
   \<and> timeouts (ticking 1) = timeouts polling_sys \<and> trace (ticking 1) = trace polling_sys"
proof -
  have n: "\<not> terminal pending_response" "\<not> terminal error_response"
    "\<not> terminal malformed_response" "\<not> terminal (Inl NetworkError)"
    using not_terminal(5) [OF reported_pending]
    by (simp_all add: not_terminal error_response_def malformed_response_def ok_def)
  have a: "poll_resume pending_response shown_state = (shown_state, [])"
    using poll_not_terminal [OF n(1), of shown_state]
    by (simp add: poll_resume_pending_response)
  have b: "poll_resume error_response shown_state = (shown_state, [])"
    using poll_not_terminal [OF n(2), of shown_state]
    by (simp add: poll_resume_def error_response_def ok_def)
  have c: "poll_resume malformed_response shown_state = (shown_state, [ConsoleError])"
    using poll_not_terminal [OF n(3), of shown_state]
    by (simp add: poll_resume_def malformed_response_def ok_def)
  have d: "poll_resume (Inl NetworkError) shown_state = (shown_state, [ConsoleError])"
    using poll_not_terminal [OF n(4), of shown_state]
    by (simp add: poll_resume_def)
  have "\<exists>s'. step (StatusSettled 0 pending_response) polling_sys = Some s'
          \<and> ui s' = ui polling_sys \<and> intervals s' = intervals polling_sys
          \<and> timeouts s' = timeouts polling_sys
          \<and> (trace s' = trace polling_sys
               \<or> trace s' = trace polling_sys @ [(clock polling_sys, Some 0, ConsoleError)])"
    using poll_not_terminal [OF n(1), of shown_state 0 polling_sys] in_flight_polling by blast
  then have e: "ui (ticking 1) = ui polling_sys \<and> intervals (ticking 1) = intervals polling_sys
      \<and> timeouts (ticking 1) = timeouts polling_sys"
    using step_pending by auto
  have f: "trace (ticking 1) = trace polling_sys"
    by (simp add: ticking_def polling_sys_def)
  from n a b c d e f show ?thesis using in_flight_polling step_pending by simp
qed

subsection \<open>C8: the five-minute ceiling\<close>

text \<open>
  C8, as stated, promises that once five minutes have gone by without a terminal
  status there is no notice and no state change any more.  The ceiling clears the
  interval; it does not touch a status call that is already on its way.  In the
  run below the poll starts at 0, the call issued at 297000 is still in flight
  when the interval is cleared at 300000, and it settles at 300500 with
  \<^verbatim>\<open>completed\<close>: the modal closes, the state is reset and the success notice is
  surfaced, half a second after the ceiling.  No status of the run before that
  was terminal.
\<close>

theorem late_status_counterexample:
  "run charging boot = Some charging_sys
   \<and> step (SubmitSettled charge_response) charging_sys = Some (ticking 0)
   \<and> handles charging_sys = {} \<and> handles (ticking 0) = {0} \<and> clock (ticking 0) = 0
   \<and> run late_run (ticking 0) = Some late_sys
   \<and> filter (stops 0) late_run = [TimeoutFires 300000 (CancelInterval 0)]
   \<and> handles late_sys = {} \<and> clock late_sys = 300500
   \<and> step (StatusSettled 0 completed_response) late_sys = Some late_done
   \<and> showUpdateModal (ui late_sys) \<and> \<not> showUpdateModal (ui late_done)
   \<and> trace late_done = trace late_sys @
         [(300500, Some 0, ShowNotification (T ''header.updateCompleted'') SevSuccess)]"
proof -
  have "filter (stops 0) late_run = [TimeoutFires 300000 (CancelInterval 0)]"
    by (simp add: late_run_def filter_concat_replicate stops_tick concat_replicate_Nil)
       (simp add: stops_def)
  moreover have "handles charging_sys = {}" "handles (ticking 0) = {0}" "clock (ticking 0) = 0"
    "handles late_sys = {}" "clock late_sys = 300500"
    "showUpdateModal (ui late_sys)" "\<not> showUpdateModal (ui late_done)"
    "trace late_done = trace late_sys @
         [(300500, Some 0, ShowNotification (T ''header.updateCompleted'') SevSuccess)]"
    by (simp_all add: handles_def charging_sys_def ticking_def late_sys_def late_done_def
          shown_state_def form_state_def)
  ultimately show ?thesis
    using run_charging step_charged run_late step_late by simp
qed

text \<open>
  C8, amended.  Let a step of a reachable state start the poll with interval \<open>h\<close>,
  at clock \<open>c\<close>.  The timeout that clears \<open>h\<close> is armed for \<open>c + 5 * 60 * 1000\<close>,
  and whatever happens afterwards (clicks, input, answers of the backend):
  \<^item> while \<open>h\<close> is there, the clock has not passed that moment and the timeout is
    still pending for that same moment, so it is never renewed;
  \<^item> \<open>h\<close> is there as long as neither that timeout has fired nor one of its own
    status calls has settled with a terminal status;
  \<^item> the timeout fires exactly at \<open>c + 5 * 60 * 1000\<close>, takes \<open>h\<close> away, changes
    no cell of the state and surfaces nothing;
  \<^item> no status call of \<open>h\<close> is issued after that moment;
  \<^item> once \<open>h\<close> is gone and none of its status calls is in flight, no callback of
    \<open>h\<close> runs again and it surfaces nothing more.  A status call of \<open>h\<close> that is
    in flight at the ceiling is still handled when it settles.
\<close>

theorem poll_cutoff:
  assumes "run es0 boot = Some s0"
      and "step e s0 = Some s1" and "h \<notin> handles s0" and "h \<in> handles s1"
      and "run es s1 = Some s"
  shows "(clock s0 + 5 * 60 * 1000, CancelInterval h) \<in> set (timeouts s1)
       \<and> (h \<in> handles s \<longrightarrow>
            clock s \<le> clock s0 + 5 * 60 * 1000
            \<and> (clock s0 + 5 * 60 * 1000, CancelInterval h) \<in> set (timeouts s))
       \<and> ((\<forall>e \<in> set es. (\<forall>due. e \<noteq> TimeoutFires due (CancelInterval h))
                        \<and> (\<forall>r. e = StatusSettled h r \<longrightarrow> \<not> terminal r)) \<longrightarrow>
            h \<in> handles s)
       \<and> (step (TimeoutFires due (CancelInterval h)) s = Some s' \<longrightarrow>
            due = clock s0 + 5 * 60 * 1000 \<and> clock s = due
            \<and> ui s' = ui s \<and> trace s' = trace s \<and> h \<notin> handles s')
       \<and> (\<forall>t \<in> set (status_calls h s). t \<le> clock s0 + 5 * 60 * 1000)
       \<and> (h \<notin> handles s \<and> h \<notin> set (in_flight s) \<and> run es' s = Some s'' \<longrightarrow>
            by_interval h s'' = by_interval h s
            \<and> (\<forall>e \<in> set es'. e \<noteq> IntervalFires h \<and> (\<forall>r. e \<noteq> StatusSettled h r)))"
proof -
  let ?d = "clock s0 + 5 * 60 * 1000"
  have d: "?d = clock s0 + 300000" by simp
  from assms(1) have w: "wf s0" by (rule wf_reachable)
  from armed_start [OF w assms(2-4)] have "armed h (clock s0 + 300000) s1" by (rule conjunct2)
  then have a1: "armed h ?d s1" by (simp only: d)
  then have a: "armed h ?d s" using assms(5) by (rule armed_run)
  have c1: "(?d, CancelInterval h) \<in> set (timeouts s1)"
    using a1 assms(4) by (simp add: armed_def)
  have c2: "h \<in> handles s \<longrightarrow> clock s \<le> ?d \<and> (?d, CancelInterval h) \<in> set (timeouts s)"
    using a unfolding armed_def by fastforce
  have c3: "(\<forall>e \<in> set es. (\<forall>due. e \<noteq> TimeoutFires due (CancelInterval h))
                        \<and> (\<forall>r. e = StatusSettled h r \<longrightarrow> \<not> terminal r)) \<longrightarrow>
            h \<in> handles s"
  proof
    assume "\<forall>e \<in> set es. (\<forall>due. e \<noteq> TimeoutFires due (CancelInterval h))
                        \<and> (\<forall>r. e = StatusSettled h r \<longrightarrow> \<not> terminal r)"
    then have "\<forall>e \<in> set es. \<not> stops h e" by (auto simp: stops_cases)
    with run_keeps [OF assms(5,4)] show "h \<in> handles s" by blast
  qed
  have c4: "step (TimeoutFires due (CancelInterval h)) s = Some s' \<longrightarrow>
            due = ?d \<and> clock s = due \<and> ui s' = ui s \<and> trace s' = trace s \<and> h \<notin> handles s'"
  proof
    assume "step (TimeoutFires due (CancelInterval h)) s = Some s'"
    then have m: "(due, CancelInterval h) \<in> set (timeouts s)" "due \<le> clock s"
      and s': "s' = clear_interval h (s\<lparr>timeouts := remove1 (due, CancelInterval h) (timeouts s)\<rparr>)"
      by (auto split: if_splits)
    from a m(1) have "due = ?d \<and> clock s \<le> ?d" unfolding armed_def by fastforce
    with m(2) show "due = ?d \<and> clock s = due \<and> ui s' = ui s \<and> trace s' = trace s \<and> h \<notin> handles s'"
      unfolding s' by simp
  qed
  have c5: "\<forall>t \<in> set (status_calls h s). t \<le> ?d"
    using a by (simp add: armed_def)
  have c6: "h \<notin> handles s \<and> h \<notin> set (in_flight s) \<and> run es' s = Some s'' \<longrightarrow>
            by_interval h s'' = by_interval h s
            \<and> (\<forall>e \<in> set es'. e \<noteq> IntervalFires h \<and> (\<forall>r. e \<noteq> StatusSettled h r))"
  proof
    assume q: "h \<notin> handles s \<and> h \<notin> set (in_flight s) \<and> run es' s = Some s''"
    with a have "quiet h s" by (simp add: quiet_def gone_def armed_def)
    from quiet_run [OF this, of es' s''] q
    show "by_interval h s'' = by_interval h s
            \<and> (\<forall>e \<in> set es'. e \<noteq> IntervalFires h \<and> (\<forall>r. e \<noteq> StatusSettled h r))"
      by blast
  qed
  from c1 c2 c3 c4 c5 c6 show ?thesis by blast
qed

theorem poll_cutoff_witness:
  "run charging boot = Some charging_sys
   \<and> step (SubmitSettled charge_response) charging_sys = Some (ticking 0)
   \<and> 0 \<notin> handles charging_sys \<and> 0 \<in> handles (ticking 0)
   \<and> run cutoff_run (ticking 0) = Some at_cutoff
   \<and> (clock charging_sys + 5 * 60 * 1000, CancelInterval 0) \<in> set (timeouts (ticking 0))
   \<and> 0 \<in> handles at_cutoff
   \<and> clock at_cutoff \<le> clock charging_sys + 5 * 60 * 1000
   \<and> step (TimeoutFires 300000 (CancelInterval 0)) at_cutoff = Some expired_sys
   \<and> 300000 = clock charging_sys + 5 * 60 * 1000 \<and> clock at_cutoff = 300000
   \<and> ui expired_sys = ui at_cutoff \<and> trace expired_sys = trace at_cutoff
   \<and> 0 \<notin> handles expired_sys
   \<and> 297000 \<in> set (status_calls 0 at_cutoff) \<and> 297000 \<le> clock charging_sys + 5 * 60 * 1000
   \<and> 0 \<notin> set (in_flight expired_sys)
   \<and> run [Elapse 500] expired_sys = Some (expired_sys\<lparr>clock := 300500\<rparr>)
   \<and> by_interval 0 (expired_sys\<lparr>clock := 300500\<rparr>) = by_interval 0 expired_sys"
proof -
  have h: "0 \<notin> handles charging_sys" "0 \<in> handles (ticking 0)"
    by (simp_all add: handles_def charging_sys_def ticking_def)
  have no_stop: "\<forall>e \<in> set cutoff_run.
      (\<forall>due. e \<noteq> TimeoutFires due (CancelInterval 0))
      \<and> (\<forall>r. e = StatusSettled 0 r \<longrightarrow> \<not> terminal r)"
    using cutoff_run_events not_terminal(5) [OF reported_pending] by fastforce
  note A = poll_cutoff [OF run_charging step_charged h run_cutoff,
      of 300000 expired_sys "[]" at_cutoff]
  note B = poll_cutoff [OF run_charging step_charged h run_to_expiry,
      of 300000 expired_sys "[Elapse 500]" "expired_sys\<lparr>clock := 300500\<rparr>"]
  from A have a1: "(clock charging_sys + 5 * 60 * 1000, CancelInterval 0) \<in> set (timeouts (ticking 0))"
    by blast
  from A no_stop have a3: "0 \<in> handles at_cutoff" by blast
  with A have a2: "clock at_cutoff \<le> clock charging_sys + 5 * 60 * 1000" by blast
  from A step_expire have a4: "300000 = clock charging_sys + 5 * 60 * 1000
      \<and> clock at_cutoff = 300000 \<and> ui expired_sys = ui at_cutoff
      \<and> trace expired_sys = trace at_cutoff \<and> 0 \<notin> handles expired_sys"
    by blast
  from A at_cutoff_facts(3) have a5: "297000 \<le> clock charging_sys + 5 * 60 * 1000"
    by blast
  from B expired_facts(1,2) run_expired
  have b: "by_interval 0 (expired_sys\<lparr>clock := 300500\<rparr>) = by_interval 0 expired_sys"
    by blast
  from a1 a2 a3 a4 a5 b show ?thesis
    using run_charging step_charged h run_cutoff step_expire at_cutoff_facts(3)
      expired_facts(2) run_expired
    by blast
qed

subsection \<open>C9: opening the modal again\<close>

text \<open>
  C9.  In every state in which a payment code is shown, \<^verbatim>\<open>handleUpdatePlatform\<close>
  sends no charge request, and two calls in a row leave no charge call in flight,
  start no poll, and keep the four charge cells as they were.  With a user logged
  in (the operation's precondition), the first call only shows the modal, with
  the code that is already there, and the second call changes nothing at all.
\<close>

theorem initiate_idempotent:
  assumes "truthy (updateQrCode (ui s))"
  shows "FetchUpdateRequest q \<notin> set (snd (handleUpdatePlatform p (ui s)))
       \<and> (\<exists>s1 s2. step (ClickUpdate p) s = Some s1 \<and> step (ClickUpdate p) s1 = Some s2
             \<and> submitting s2 = submitting s \<and> handles s2 = handles s
             \<and> updateQrCode (ui s2) = updateQrCode (ui s)
             \<and> updateQrCodeBase64 (ui s2) = updateQrCodeBase64 (ui s)
             \<and> updateTransactionId (ui s2) = updateTransactionId (ui s)
             \<and> updateExpiresAt (ui s2) = updateExpiresAt (ui s)
             \<and> (currentUserId p \<noteq> [] \<longrightarrow>
                  s1 = s\<lparr>ui := (ui s)\<lparr>showUpdateModal := True\<rparr>\<rparr> \<and> s2 = s1))"
  by (simp add: handleUpdatePlatform_def settle_def)

theorem initiate_idempotent_witness:
  "truthy (updateQrCode (ui (ticking 0)))
   \<and> FetchUpdateRequest sample_payer \<notin> set (snd (handleUpdatePlatform user shown_state))
   \<and> currentUserId user \<noteq> []
   \<and> step (ClickUpdate user) (ticking 0) = Some (ticking 0)
   \<and> run [ClickUpdate user, ClickUpdate user] (ticking 0) = Some (ticking 0)
   \<and> showUpdateModal (ui (ticking 0))
   \<and> submitting (ticking 0) = 0"
proof -
  have t: "truthy (updateQrCode (ui (ticking 0)))"
    by (simp add: ticking_def shown_state_def)
  have u: "ui (ticking 0) = shown_state" by (simp add: ticking_def)
  have e: "(ticking 0)\<lparr>ui := shown_state\<lparr>showUpdateModal := True\<rparr>\<rparr> = ticking 0"
    by (simp add: ticking_def shown_state_def form_state_def)
  from initiate_idempotent [OF t, of sample_payer user] user_present
  have "FetchUpdateRequest sample_payer \<notin> set (snd (handleUpdatePlatform user shown_state))"
    and "step (ClickUpdate user) (ticking 0) = Some (ticking 0)"
    unfolding u e by (auto simp del: step.simps)
  moreover have "showUpdateModal (ui (ticking 0))" "submitting (ticking 0) = 0"
    by (simp_all add: ticking_def shown_state_def form_state_def)
  ultimately show ?thesis
    using t user_present by (simp del: step.simps)
qed

subsection \<open>C10: closing the modal while the form is shown\<close>

text \<open>
  C10.  In every state in which no payment code is shown (\<^verbatim>\<open>updateQrCode\<close> is
  not truthy, so the modal shows the form), closing the modal changes the
  visibility flag and nothing else: the five payer cells and the four charge cells
  keep their values, and so does everything outside the state.  Opening the modal
  again, with a user logged in, sets the flag back: what was typed is still there.
\<close>

theorem close_form_keeps_inputs:
  assumes "\<not> truthy (updateQrCode (ui s))"
  shows "closeUpdateModal (ui s) = ((ui s)\<lparr>showUpdateModal := False\<rparr>, [])
       \<and> step ClickClose s = Some (s\<lparr>ui := (ui s)\<lparr>showUpdateModal := False\<rparr>\<rparr>)
       \<and> (currentUserId p \<noteq> [] \<longrightarrow>
            run [ClickClose, ClickUpdate p] s = Some (s\<lparr>ui := (ui s)\<lparr>showUpdateModal := True\<rparr>\<rparr>))"
  using assms by (simp add: closeUpdateModal_def handleUpdatePlatform_def settle_def)

theorem close_form_keeps_inputs_witness:
  "\<not> truthy (updateQrCode (ui (boot\<lparr>ui := form_state\<rparr>)))
   \<and> closeUpdateModal form_state = (closed_form, [])
   \<and> step ClickClose (boot\<lparr>ui := form_state\<rparr>) = Some (boot\<lparr>ui := closed_form\<rparr>)
   \<and> currentUserId user \<noteq> []
   \<and> run [ClickClose, ClickUpdate user] (boot\<lparr>ui := form_state\<rparr>) = Some (boot\<lparr>ui := form_state\<rparr>)
   \<and> payerEmail closed_form = ''ana@example.com''
   \<and> payerIdentificationNumber closed_form = ''000.000.000-00''"
proof -
  have h: "\<not> truthy (updateQrCode (ui (boot\<lparr>ui := form_state\<rparr>)))"
    by (simp add: form_state_def)
  have f: "form_state\<lparr>showUpdateModal := True\<rparr> = form_state"
    by (simp add: form_state_def)
  have g: "payerEmail closed_form = ''ana@example.com''"
    "payerIdentificationNumber closed_form = ''000.000.000-00''"
    by (simp_all add: closed_form_def form_state_def)
  from close_form_keeps_inputs [OF h, of user] user_present
  show ?thesis using h f g by (simp add: closed_form_def del: step.simps run.simps)
qed

end
